theory Spec2Isabelle
  imports Complex_Main "HOL-Library.Word" "HOL-Library.Log_Nat"
begin

section \<open>Bytes, Python exceptions and the struct module\<close>

type_synonym byte = "8 word"

text \<open>The exception classes the modelled code can meet. A raise is the value \<open>Inl e\<close>.\<close>

datatype py_error = ValueError | TypeError | StructError | OSError | FileNotFoundError
  | RuntimeError | CvError

text \<open>
  \<open>struct.pack('I', v)\<close>: four bytes, least significant first (the byte order of the
  machines the program runs on, and the one the wire format names); a value outside
  \<open>0 .. 2^32 - 1\<close> raises \<open>struct.error\<close>.
\<close>

definition u32_bytes :: "int \<Rightarrow> byte list" where
  "u32_bytes v = [word_of_int v, word_of_int (v div 256),
                  word_of_int (v div 65536), word_of_int (v div 16777216)]"

definition in_u32 :: "int \<Rightarrow> bool" where
  "in_u32 v = (0 \<le> v \<and> v < 4294967296)"

definition pack_I :: "int \<Rightarrow> py_error + byte list" where
  "pack_I v = (if in_u32 v then Inr (u32_bytes v) else Inl StructError)"

fun pack_Is :: "int list \<Rightarrow> py_error + byte list" where
  "pack_Is [] = Inr []"
| "pack_Is (v # vs) =
     (case pack_I v of Inl e \<Rightarrow> Inl e
      | Inr b \<Rightarrow> (case pack_Is vs of Inl e \<Rightarrow> Inl e | Inr bs \<Rightarrow> Inr (b @ bs)))"

text \<open>\<open>struct.pack('6I', a, b, c, d, e, f)\<close>.\<close>

definition pack_6I :: "int \<Rightarrow> int \<Rightarrow> int \<Rightarrow> int \<Rightarrow> int \<Rightarrow> int \<Rightarrow> py_error + byte list" where
  "pack_6I a b c d e f = pack_Is [a, b, c, d, e, f]"

definition u32_value :: "byte list \<Rightarrow> int" where
  "u32_value bs = uint (bs ! 0) + 256 * uint (bs ! 1) + 65536 * uint (bs ! 2)
                  + 16777216 * uint (bs ! 3)"

text \<open>\<open>struct.unpack('I', data)[0]\<close>: the buffer must hold exactly four bytes.\<close>

definition unpack_I :: "byte list \<Rightarrow> py_error + int" where
  "unpack_I bs = (if length bs = 4 then Inr (u32_value bs) else Inl StructError)"

text \<open>\<open>struct.unpack('6I', data)\<close>: the buffer must hold exactly 24 bytes.\<close>

definition unpack_6I :: "byte list \<Rightarrow> py_error + (int \<times> int \<times> int \<times> int \<times> int \<times> int)" where
  "unpack_6I bs =
     (if length bs = 24
      then Inr (u32_value (take 4 bs), u32_value (take 4 (drop 4 bs)),
                u32_value (take 4 (drop 8 bs)), u32_value (take 4 (drop 12 bs)),
                u32_value (take 4 (drop 16 bs)), u32_value (take 4 (drop 20 bs)))
      else Inl StructError)"


section \<open>Memory-mapped regions\<close>

text \<open>
  An \<open>mmap.mmap\<close> object is modelled by the bytes of the region it maps, its file
  position, its access mode and whether it has been closed. The bytes stand for the
  shared pages: whatever another process stores in the file is a change of \<open>region\<close>.
\<close>

datatype access = ACCESS_DEFAULT | ACCESS_READ | ACCESS_WRITE

record mmap_obj =
  region :: "byte list"
  pos :: nat
  access :: access
  closed :: bool

text \<open>
  \<open>mmap.mmap(fileno, length, access=...)\<close> on a regular file: a file shorter than
  \<open>length\<close> raises ValueError.
\<close>

definition mmap_new :: "byte list \<Rightarrow> nat \<Rightarrow> access \<Rightarrow> py_error + mmap_obj" where
  "mmap_new file_bytes n acc =
     (if length file_bytes < n then Inl ValueError
      else Inr \<lparr>region = take n file_bytes, pos = 0, access = acc, closed = False\<rparr>)"

definition mmap_seek :: "mmap_obj \<Rightarrow> nat \<Rightarrow> py_error + mmap_obj" where
  "mmap_seek m n =
     (if closed m then Inl ValueError
      else if n > length (region m) then Inl ValueError
      else Inr (m\<lparr>pos := n\<rparr>))"

text \<open>\<open>m.read(n)\<close>: at most \<open>n\<close> bytes from the position, which moves past them.\<close>

definition mmap_read :: "mmap_obj \<Rightarrow> nat \<Rightarrow> py_error + (byte list \<times> mmap_obj)" where
  "mmap_read m n =
     (if closed m then Inl ValueError
      else let bs = take n (drop (pos m) (region m))
           in Inr (bs, m\<lparr>pos := pos m + length bs\<rparr>))"

text \<open>
  \<open>m.write(bs)\<close>: ValueError on a closed map, TypeError on a read-only one,
  ValueError when the bytes do not fit between the position and the end.
\<close>

definition mmap_write :: "mmap_obj \<Rightarrow> byte list \<Rightarrow> py_error + mmap_obj" where
  "mmap_write m bs =
     (if closed m then Inl ValueError
      else if access m = ACCESS_READ then Inl TypeError
      else if pos m > length (region m) \<or> length (region m) - pos m < length bs
      then Inl ValueError
      else Inr (m\<lparr>region := take (pos m) (region m) @ bs @ drop (pos m + length bs) (region m),
                  pos := pos m + length bs\<rparr>))"

definition mmap_flush :: "mmap_obj \<Rightarrow> py_error + unit" where
  "mmap_flush m = (if closed m then Inl ValueError else Inr ())"

text \<open>\<open>m[i:j]\<close> for \<open>0 \<le> i \<le> j\<close>: the slice is clamped to the region.\<close>

definition mmap_slice :: "mmap_obj \<Rightarrow> nat \<Rightarrow> nat \<Rightarrow> py_error + byte list" where
  "mmap_slice m i j =
     (if closed m then Inl ValueError else Inr (take (j - i) (drop i (region m))))"

text \<open>Truth value of a map object: its length is not zero; \<open>len\<close> of a closed map raises.\<close>

definition mmap_bool :: "mmap_obj \<Rightarrow> py_error + bool" where
  "mmap_bool m = (if closed m then Inl ValueError else Inr (length (region m) \<noteq> 0))"


section \<open>Frames, the encoder and the clock\<close>

text \<open>
  A frame is an array of bytes with a shape. \<open>cv2.imencode\<close> and \<open>time.time\<close> are not
  part of the repository: the encoder is a parameter (\<open>Inl e\<close> when it raises,
  \<open>Inr None\<close> when it reports no success, \<open>Inr (Some bytes)\<close> otherwise), and the clock
  reading, a number of seconds, is a parameter too.
\<close>

record frame =
  shape :: "nat list"
  pixels :: "byte list"

type_synonym encoder = "frame \<Rightarrow> int \<Rightarrow> py_error + byte list option"

text \<open>\<open>height, width, channels = frame.shape\<close>\<close>

definition unpack_shape :: "frame \<Rightarrow> py_error + (nat \<times> nat \<times> nat)" where
  "unpack_shape f =
     (case shape f of [h, w, c] \<Rightarrow> Inr (h, w, c) | _ \<Rightarrow> Inl ValueError)"

text \<open>\<open>int(x)\<close> of a float: truncation towards zero.\<close>

definition py_int :: "rat \<Rightarrow> int" where
  "py_int x = (if 0 \<le> x then \<lfloor>x\<rfloor> else \<lceil>x\<rceil>)"

text \<open>
  Python's floats are binary64 numbers. A float is modelled by the rational number it
  stands for, and every float operation by the exact operation followed by rounding to
  the nearest binary64 number, ties to the even significand: \<open>to_double\<close>. For
  \<open>x > 0\<close>, \<open>binary_exponent x\<close> is the \<open>e\<close> with \<open>2^e \<le> x < 2^(e+1)\<close>; the
  significand has 53 bits, and the smallest unit is \<open>2^-1074\<close>. Magnitudes beyond the
  largest binary64 number (infinities, OverflowError) are outside the model: a clock
  reading and 32-bit header fields do not get there.
\<close>

definition round_half_even :: "rat \<Rightarrow> int" where
  "round_half_even y =
     (let f = \<lfloor>y\<rfloor>; d = y - of_int f
      in if d < 1 / 2 then f else if 1 / 2 < d then f + 1 else if even f then f else f + 1)"

definition binary_exponent :: "rat \<Rightarrow> int" where
  "binary_exponent x = (if 1 \<le> x then bitlen \<lfloor>x\<rfloor> - 1 else - bitlen (\<lceil>1 / x\<rceil> - 1))"

definition to_double :: "rat \<Rightarrow> rat" where
  "to_double x =
     (if x = 0 then 0
      else let a = \<bar>x\<bar>;
               q = max (binary_exponent a - 52) (- 1074);
               m = round_half_even (a / 2 powi q)
           in sgn x * of_int m * 2 powi q)"

text \<open>
  \<open>float(i)\<close> for an int, the float operations \<open>a + b\<close>, \<open>a - b\<close>, \<open>a * b\<close>, and the
  true division \<open>i / j\<close> of two ints (\<open>j\<close> is not zero where the code divides).
\<close>

definition float_of_int :: "int \<Rightarrow> rat" where
  "float_of_int i = to_double (of_int i)"

definition float_add :: "rat \<Rightarrow> rat \<Rightarrow> rat" where
  "float_add a b = to_double (a + b)"

definition float_sub :: "rat \<Rightarrow> rat \<Rightarrow> rat" where
  "float_sub a b = to_double (a - b)"

definition float_mul :: "rat \<Rightarrow> rat \<Rightarrow> rat" where
  "float_mul a b = to_double (a * b)"

definition int_true_div :: "int \<Rightarrow> int \<Rightarrow> rat" where
  "int_true_div i j = to_double (of_int i / of_int j)"

text \<open>\<open>ts_sec + (ts_usec / 1_000_000)\<close>, as both readers compute it.\<close>

definition timestamp_of :: "int \<Rightarrow> int \<Rightarrow> rat" where
  "timestamp_of ts_sec ts_usec = float_add (float_of_int ts_sec) (int_true_div ts_usec 1000000)"

text \<open>
  \<open>np.frombuffer(data, dtype=np.uint8).reshape((height, width, channels))\<close>: the number
  of bytes must be the product of the dimensions.
\<close>

definition frombuffer_reshape :: "byte list \<Rightarrow> int \<Rightarrow> int \<Rightarrow> int \<Rightarrow> py_error + frame" where
  "frombuffer_reshape bs h w c =
     (if int (length bs) = h * w * c \<and> 0 \<le> h \<and> 0 \<le> w \<and> 0 \<le> c
      then Inr \<lparr>shape = [nat h, nat w, nat c], pixels = bs\<rparr>
      else Inl ValueError)"


section \<open>SharedFrameBuffer\<close>

definition HEADER_SIZE :: nat where
  "HEADER_SIZE = 24"

definition MAX_FRAME_SIZE :: nat where
  "MAX_FRAME_SIZE = 1920 * 1080 * 3"

definition TOTAL_SIZE :: nat where
  "TOTAL_SIZE = HEADER_SIZE + MAX_FRAME_SIZE"

record SharedFrameBuffer =
  file_path :: string
  flag_path :: string
  mmap_file :: "mmap_obj option"
  flag_mmap :: "mmap_obj option"

subsection \<open>is_preview_enabled\<close>

definition is_preview_enabled_try :: "SharedFrameBuffer \<Rightarrow> py_error + bool" where
  "is_preview_enabled_try s =
     (case flag_mmap s of
        None \<Rightarrow> Inr False
      | Some fm \<Rightarrow>
         (case mmap_bool fm of
            Inl e \<Rightarrow> Inl e
          | Inr False \<Rightarrow> Inr False
          | Inr True \<Rightarrow>
             (case mmap_slice fm 0 4 of
                Inl e \<Rightarrow> Inl e
              | Inr bs \<Rightarrow>
                 (case unpack_I bs of
                    Inl e \<Rightarrow> Inl e
                  | Inr flag_value \<Rightarrow> Inr (flag_value = 1)))))"

text \<open>The \<open>except Exception\<close> branch logs and returns False.\<close>

definition is_preview_enabled :: "SharedFrameBuffer \<Rightarrow> py_error + bool" where
  "is_preview_enabled s =
     (case is_preview_enabled_try s of Inl e \<Rightarrow> Inr False | Inr b \<Rightarrow> Inr b)"

subsection \<open>write_frame\<close>

text \<open>
  The body of the \<open>try\<close> block, on the map object. Its result is what the block returns
  or the exception it raises, together with the map as the block leaves it (a first
  \<open>write\<close> that succeeded stays written when the second one raises).
\<close>

definition write_frame_try ::
  "encoder \<Rightarrow> rat \<Rightarrow> mmap_obj \<Rightarrow> frame \<Rightarrow> int \<Rightarrow> (py_error + bool) \<times> mmap_obj" where
  "write_frame_try imencode now m fr quality =
     (case unpack_shape fr of
        Inl e \<Rightarrow> (Inl e, m)
      | Inr (height, width, channels) \<Rightarrow>
         (case imencode fr quality of
            Inl e \<Rightarrow> (Inl e, m)
          | Inr None \<Rightarrow> (Inr False, m)
          | Inr (Some jpeg_bytes) \<Rightarrow>
             (let frame_size = length jpeg_bytes in
              if frame_size > MAX_FRAME_SIZE then (Inr False, m)
              else
                (let timestamp = to_double now;
                     timestamp_sec = py_int timestamp;
                     timestamp_usec =
                       py_int (float_mul (float_sub timestamp (float_of_int timestamp_sec))
                                         (float_of_int 1000000))
                 in case mmap_seek m 0 of
                      Inl e \<Rightarrow> (Inl e, m)
                    | Inr m1 \<Rightarrow>
                       (case pack_6I (int width) (int height) (int channels)
                                     timestamp_sec timestamp_usec (int frame_size) of
                          Inl e \<Rightarrow> (Inl e, m1)
                        | Inr header \<Rightarrow>
                           (case mmap_write m1 header of
                              Inl e \<Rightarrow> (Inl e, m1)
                            | Inr m2 \<Rightarrow>
                               (case mmap_write m2 jpeg_bytes of
                                  Inl e \<Rightarrow> (Inl e, m2)
                                | Inr m3 \<Rightarrow>
                                   (case mmap_flush m3 of
                                      Inl e \<Rightarrow> (Inl e, m3)
                                    | Inr _ \<Rightarrow> (Inr True, m3)))))))))"

definition write_frame ::
  "encoder \<Rightarrow> rat \<Rightarrow> SharedFrameBuffer \<Rightarrow> frame \<Rightarrow> int \<Rightarrow> (py_error + bool) \<times> SharedFrameBuffer" where
  "write_frame imencode now s fr quality =
     (case mmap_file s of
        None \<Rightarrow> (Inr False, s)
      | Some m \<Rightarrow>
         (case write_frame_try imencode now m fr quality of
            (Inl e, m') \<Rightarrow> (Inr False, s\<lparr>mmap_file := Some m'\<rparr>)
          | (Inr b, m') \<Rightarrow> (Inr b, s\<lparr>mmap_file := Some m'\<rparr>)))"

text \<open>
  The two timestamp fields \<open>write_frame\<close> puts into the header at a clock reading:
  \<open>time.time()\<close> is a float, \<open>timestamp_sec = int(timestamp)\<close> and
  \<open>timestamp_usec = int((timestamp - timestamp_sec) * 1_000_000)\<close>.
\<close>

definition stamp_sec :: "rat \<Rightarrow> int" where
  "stamp_sec now = py_int (to_double now)"

definition stamp_usec :: "rat \<Rightarrow> int" where
  "stamp_usec now =
     py_int (float_mul (float_sub (to_double now) (float_of_int (stamp_sec now)))
                       (float_of_int 1000000))"

subsection \<open>read_frame and read_frame_info\<close>

definition read_frame_try :: "mmap_obj \<Rightarrow> (py_error + (frame \<times> rat) option) \<times> mmap_obj" where
  "read_frame_try m =
     (case mmap_seek m 0 of
        Inl e \<Rightarrow> (Inl e, m)
      | Inr m1 \<Rightarrow>
         (case mmap_read m1 HEADER_SIZE of
            Inl e \<Rightarrow> (Inl e, m1)
          | Inr (header_data, m2) \<Rightarrow>
             (case unpack_6I header_data of
                Inl e \<Rightarrow> (Inl e, m2)
              | Inr (width, height, channels, ts_sec, ts_usec, frame_size) \<Rightarrow>
                 if width = 0 \<or> height = 0 \<or> frame_size = 0 then (Inr None, m2)
                 else
                   (case mmap_read m2 (nat frame_size) of
                      Inl e \<Rightarrow> (Inl e, m2)
                    | Inr (frame_data, m3) \<Rightarrow>
                       (case frombuffer_reshape frame_data height width channels of
                          Inl e \<Rightarrow> (Inl e, m3)
                        | Inr fr \<Rightarrow>
                           (Inr (Some (fr, timestamp_of ts_sec ts_usec)), m3))))))"

text \<open>
  The result \<open>Inr None\<close> is the pair \<open>(None, None)\<close> of the source; \<open>Inl e\<close> would be
  an exception leaving the method.
\<close>

definition read_frame ::
  "SharedFrameBuffer \<Rightarrow> (py_error + (frame \<times> rat) option) \<times> SharedFrameBuffer" where
  "read_frame s =
     (case mmap_file s of
        None \<Rightarrow> (Inr None, s)
      | Some m \<Rightarrow>
         (case read_frame_try m of
            (Inl e, m') \<Rightarrow> (Inr None, s\<lparr>mmap_file := Some m'\<rparr>)
          | (Inr r, m') \<Rightarrow> (Inr r, s\<lparr>mmap_file := Some m'\<rparr>)))"

record frame_info =
  info_width :: int
  info_height :: int
  info_channels :: int
  info_timestamp :: rat
  info_frame_size :: int

definition read_frame_info_try :: "mmap_obj \<Rightarrow> (py_error + frame_info option) \<times> mmap_obj" where
  "read_frame_info_try m =
     (case mmap_seek m 0 of
        Inl e \<Rightarrow> (Inl e, m)
      | Inr m1 \<Rightarrow>
         (case mmap_read m1 HEADER_SIZE of
            Inl e \<Rightarrow> (Inl e, m1)
          | Inr (header_data, m2) \<Rightarrow>
             (case unpack_6I header_data of
                Inl e \<Rightarrow> (Inl e, m2)
              | Inr (width, height, channels, ts_sec, ts_usec, frame_size) \<Rightarrow>
                 if width = 0 \<or> height = 0 then (Inr None, m2)
                 else (Inr (Some \<lparr>info_width = width, info_height = height,
                                   info_channels = channels,
                                   info_timestamp = timestamp_of ts_sec ts_usec,
                                   info_frame_size = frame_size\<rparr>), m2))))"

definition read_frame_info ::
  "SharedFrameBuffer \<Rightarrow> (py_error + frame_info option) \<times> SharedFrameBuffer" where
  "read_frame_info s =
     (case mmap_file s of
        None \<Rightarrow> (Inr None, s)
      | Some m \<Rightarrow>
         (case read_frame_info_try m of
            (Inl e, m') \<Rightarrow> (Inr None, s\<lparr>mmap_file := Some m'\<rparr>)
          | (Inr r, m') \<Rightarrow> (Inr r, s\<lparr>mmap_file := Some m'\<rparr>)))"


section \<open>The constructor and the file system\<close>

text \<open>
  \<open>str.replace(old, new)\<close>: every non-overlapping occurrence of \<open>old\<close>, found from the
  left, is replaced. With an empty \<open>old\<close>, \<open>new\<close> is put before every character and
  at the end.
\<close>

function replace_from :: "string \<Rightarrow> string \<Rightarrow> string \<Rightarrow> string" where
  "replace_from old new [] = []"
| "replace_from old new (c # cs) =
     (if old \<noteq> [] \<and> take (length old) (c # cs) = old
      then new @ replace_from old new (drop (length old) (c # cs))
      else c # replace_from old new cs)"
  by pat_completeness auto
termination
  by (relation "measure (\<lambda>(old, new, s). length s)") (auto simp: neq_Nil_conv)

definition str_replace :: "string \<Rightarrow> string \<Rightarrow> string \<Rightarrow> string" where
  "str_replace s old new =
     (if old = [] then new @ concat (map (\<lambda>c. c # new) s) else replace_from old new s)"

text \<open>\<open>os.path.dirname\<close> (POSIX).\<close>

definition dirname :: "string \<Rightarrow> string" where
  "dirname p =
     (let head = rev (dropWhile (\<lambda>c. c \<noteq> CHR ''/'') (rev p))
      in if head \<noteq> [] \<and> head \<noteq> replicate (length head) (CHR ''/'')
         then rev (dropWhile (\<lambda>c. c = CHR ''/'') (rev head))
         else head)"

text \<open>
  The file system, as far as the constructor uses it: the contents of the regular files,
  which paths can be opened for writing, and which directories \<open>os.makedirs\<close> can
  provide.
\<close>

record filesystem =
  files :: "string \<Rightarrow> byte list option"
  writable :: "string \<Rightarrow> bool"
  makedirs_ok :: "string \<Rightarrow> bool"

text \<open>\<open>os.makedirs(d, exist_ok=True)\<close>; the empty path raises FileNotFoundError.\<close>

definition makedirs :: "filesystem \<Rightarrow> string \<Rightarrow> py_error + unit" where
  "makedirs fs d =
     (if d = [] then Inl FileNotFoundError
      else if makedirs_ok fs d then Inr () else Inl OSError)"

text \<open>
  \<open>with open(p, 'wb') as f: f.write(bs)\<close>. \<open>OSError\<close> stands for the error the
  operating system reports, whatever its subclass (a missing directory gives
  FileNotFoundError, a missing permission PermissionError).
\<close>

definition write_file :: "filesystem \<Rightarrow> string \<Rightarrow> byte list \<Rightarrow> py_error + filesystem" where
  "write_file fs p bs =
     (if writable fs p then Inr (fs\<lparr>files := (files fs)(p \<mapsto> bs)\<rparr>) else Inl OSError)"

text \<open>\<open>open(p, 'r+b')\<close>: the file must exist; the result is its contents.\<close>

definition open_rw :: "filesystem \<Rightarrow> string \<Rightarrow> py_error + byte list" where
  "open_rw fs p =
     (case files fs p of
        None \<Rightarrow> Inl FileNotFoundError
      | Some bs \<Rightarrow> if writable fs p then Inr bs else Inl OSError)"

text \<open>
  What a map shows after its file has been truncated and rewritten by
  \<open>open(path, 'wb')\<close> and \<open>write\<close>: the new contents of the file, then zeros. (In the
  code, the zeros end with the page that holds the end of the file, and touching the map
  beyond that page faults; the model has zeros up to the end of the map.)
\<close>

definition rewritten :: "byte list \<Rightarrow> mmap_obj \<Rightarrow> mmap_obj" where
  "rewritten bs m = m\<lparr>region := take (length (region m)) (bs @ replicate (length (region m)) 0)\<rparr>"

text \<open>
  \<open>_create_flag_file\<close>. The flag file is written with \<open>'wb'\<close>; when the flag path is
  the path of the data file, which the object has mapped already, that map shares the
  file and shows what has been written.
\<close>

definition create_flag_file ::
  "SharedFrameBuffer \<Rightarrow> filesystem \<Rightarrow> py_error + (SharedFrameBuffer \<times> filesystem)" where
  "create_flag_file s fs =
     (case pack_I 1 of
        Inl e \<Rightarrow> Inl e
      | Inr one \<Rightarrow>
         (case write_file fs (flag_path s) one of
            Inl e \<Rightarrow> Inl e
          | Inr fs1 \<Rightarrow>
             (let s1 = (if flag_path s = file_path s
                        then s\<lparr>mmap_file := map_option (rewritten one) (mmap_file s)\<rparr>
                        else s)
              in case open_rw fs1 (flag_path s) of
                   Inl e \<Rightarrow> Inl e
                 | Inr bs \<Rightarrow>
                    (case mmap_new bs 4 ACCESS_DEFAULT of
                       Inl e \<Rightarrow> Inl e
                     | Inr fm \<Rightarrow> Inr (s1\<lparr>flag_mmap := Some fm\<rparr>, fs1)))))"

definition open_flag_file_try :: "SharedFrameBuffer \<Rightarrow> filesystem \<Rightarrow> py_error + mmap_obj" where
  "open_flag_file_try s fs =
     (case open_rw fs (flag_path s) of
        Inl e \<Rightarrow> Inl e
      | Inr bs \<Rightarrow> mmap_new bs 4 ACCESS_DEFAULT)"

definition open_flag_file ::
  "SharedFrameBuffer \<Rightarrow> filesystem \<Rightarrow> py_error + (SharedFrameBuffer \<times> filesystem)" where
  "open_flag_file s fs =
     (case open_flag_file_try s fs of
        Inr fm \<Rightarrow> Inr (s\<lparr>flag_mmap := Some fm\<rparr>, fs)
      | Inl e \<Rightarrow> create_flag_file s fs)"

definition create_buffer ::
  "SharedFrameBuffer \<Rightarrow> filesystem \<Rightarrow> py_error + (SharedFrameBuffer \<times> filesystem)" where
  "create_buffer s fs =
     (case makedirs fs (dirname (file_path s)) of
        Inl e \<Rightarrow> Inl e
      | Inr _ \<Rightarrow>
         (case write_file fs (file_path s) (replicate TOTAL_SIZE 0) of
            Inl e \<Rightarrow> Inl e
          | Inr fs1 \<Rightarrow>
             (case open_rw fs1 (file_path s) of
                Inl e \<Rightarrow> Inl e
              | Inr bs \<Rightarrow>
                 (case mmap_new bs TOTAL_SIZE ACCESS_WRITE of
                    Inl e \<Rightarrow> Inl e
                  | Inr m \<Rightarrow>
                     (case mmap_seek m 0 of
                        Inl e \<Rightarrow> Inl e
                      | Inr m1 \<Rightarrow>
                         (case pack_6I 0 0 0 0 0 0 of
                            Inl e \<Rightarrow> Inl e
                          | Inr header \<Rightarrow>
                             (case mmap_write m1 header of
                                Inl e \<Rightarrow> Inl e
                              | Inr m2 \<Rightarrow> Inr (s\<lparr>mmap_file := Some m2\<rparr>, fs1))))))))"

definition open_buffer ::
  "SharedFrameBuffer \<Rightarrow> filesystem \<Rightarrow> py_error + (SharedFrameBuffer \<times> filesystem)" where
  "open_buffer s fs =
     (case open_rw fs (file_path s) of
        Inl e \<Rightarrow> Inl e
      | Inr bs \<Rightarrow>
         (case mmap_new bs TOTAL_SIZE ACCESS_READ of
            Inl e \<Rightarrow> Inl e
          | Inr m \<Rightarrow> Inr (s\<lparr>mmap_file := Some m\<rparr>, fs)))"

text \<open>
  The flag path of \<open>__init__\<close>: \<open>file_path.replace('.mmap', '_flag.mmap')\<close>, and the
  attributes as \<open>__init__\<close> sets them before it creates or opens the files.
\<close>

definition flag_path_for :: "string \<Rightarrow> string" where
  "flag_path_for path = str_replace path ''.mmap'' ''_flag.mmap''"

definition new_object :: "string \<Rightarrow> SharedFrameBuffer" where
  "new_object path =
     \<lparr>file_path = path, flag_path = flag_path_for path, mmap_file = None, flag_mmap = None\<rparr>"

text \<open>\<open>SharedFrameBuffer(file_path, create)\<close>: \<open>Inl e\<close> when the constructor raises.\<close>

definition SharedFrameBuffer_init ::
  "filesystem \<Rightarrow> string \<Rightarrow> bool \<Rightarrow> py_error + (SharedFrameBuffer \<times> filesystem)" where
  "SharedFrameBuffer_init fs path create =
     (let s = new_object path
      in if create
         then (case create_buffer s fs of
                 Inl e \<Rightarrow> Inl e
               | Inr (s1, fs1) \<Rightarrow> create_flag_file s1 fs1)
         else (case open_buffer s fs of
                 Inl e \<Rightarrow> Inl e
               | Inr (s1, fs1) \<Rightarrow> open_flag_file s1 fs1))"

text \<open>Whether \<open>old\<close> occurs in a string (Python's \<open>old in s\<close>).\<close>

fun occurs :: "string \<Rightarrow> string \<Rightarrow> bool" where
  "occurs old [] = (old = [])"
| "occurs old (c # cs) = (take (length old) (c # cs) = old \<or> occurs old cs)"

subsection \<open>close\<close>

text \<open>
  \<open>if self.mmap_file: self.mmap_file.close()\<close>, then the same for the flag map; the
  truth test of a map that is already closed raises, and the handler logs it. The two
  file handles carry no state the other methods read, and are left out.
\<close>

definition close_map :: "mmap_obj option \<Rightarrow> py_error + mmap_obj option" where
  "close_map mo =
     (case mo of
        None \<Rightarrow> Inr None
      | Some m \<Rightarrow>
         (case mmap_bool m of
            Inl e \<Rightarrow> Inl e
          | Inr b \<Rightarrow> Inr (Some (if b then m\<lparr>closed := True\<rparr> else m))))"

definition close :: "SharedFrameBuffer \<Rightarrow> SharedFrameBuffer" where
  "close s =
     (case close_map (mmap_file s) of
        Inl e \<Rightarrow> s
      | Inr mo \<Rightarrow>
         (case close_map (flag_mmap s) of
            Inl e \<Rightarrow> s\<lparr>mmap_file := mo\<rparr>
          | Inr fo \<Rightarrow> s\<lparr>mmap_file := mo, flag_mmap := fo\<rparr>))"

subsection \<open>Sequences of calls on one mailbox object\<close>

datatype api_call =
    ReadFrame
  | ReadFrameInfo
  | WriteFrame rat frame int
  | IsPreviewEnabled
  | Close

fun api_call_state :: "encoder \<Rightarrow> SharedFrameBuffer \<Rightarrow> api_call \<Rightarrow> SharedFrameBuffer" where
  "api_call_state imencode s ReadFrame = snd (read_frame s)"
| "api_call_state imencode s ReadFrameInfo = snd (read_frame_info s)"
| "api_call_state imencode s (WriteFrame now fr quality) = snd (write_frame imencode now s fr quality)"
| "api_call_state imencode s IsPreviewEnabled = s"
| "api_call_state imencode s Close = close s"

definition api_calls :: "encoder \<Rightarrow> SharedFrameBuffer \<Rightarrow> api_call list \<Rightarrow> SharedFrameBuffer" where
  "api_calls imencode s cs = foldl (api_call_state imencode) s cs"


section \<open>CameraCapture\<close>

text \<open>
  Frames are arrays on the heap; a reference is an index into the list of all arrays
  allocated so far. \<open>capture.read()\<close> and \<open>frame.copy()\<close> allocate a new array; no
  statement of the class writes into an existing one. The camera device is not part of
  the repository: whether it opens, and what each \<open>capture.read()\<close> yields
  (\<open>None\<close> when nothing was grabbed), are parameters of the steps. The requested
  width, height and frame rate only configure the device and are left out.

  The background thread runs \<open>_update\<close> one statement at a time, interleaved with the
  calls of the main thread; \<open>wpc\<close> is the statement it executes next, and
  \<open>w_grabbed\<close>, \<open>w_frame\<close> are its local variables. A call of \<open>start\<close> or
  \<open>read_frame\<close> by the main thread is one step; \<open>stop\<close> lets the threads run while
  it waits in \<open>join\<close>.
\<close>

type_synonym ref = nat

datatype wpc = LoopTest | OpenTest | ReadDevice | SetGrabbed | SetFrame | Done

record worker =
  wpc :: wpc
  w_grabbed :: bool
  w_frame :: "ref option"

record CameraCapture =
  capture :: "bool option"
  is_opened :: bool
  grabbed :: bool
  frame :: "ref option"
  thread :: "nat option"
  stop_thread :: bool
  heap :: "frame list"
  workers :: "worker list"

text \<open>
  \<open>capture\<close> is \<open>None\<close> for the attribute \<open>None\<close>, and \<open>Some b\<close> for a
  \<open>cv2.VideoCapture\<close> whose \<open>isOpened()\<close> is \<open>b\<close>. \<open>thread\<close> is the index of the
  current thread object in \<open>workers\<close>.
\<close>

definition CameraCapture_init :: CameraCapture where
  "CameraCapture_init =
     \<lparr>capture = None, is_opened = False, grabbed = False, frame = None,
      thread = None, stop_thread = False, heap = [], workers = []\<rparr>"

text \<open>\<open>capture.read()\<close> with the given outcome: the pair it returns and the new heap.\<close>

definition device_read :: "frame option \<Rightarrow> frame list \<Rightarrow> (bool \<times> ref option) \<times> frame list" where
  "device_read r h =
     (case r of
        None \<Rightarrow> ((False, None), h)
      | Some img \<Rightarrow> ((True, Some (length h)), h @ [img]))"

definition start :: "bool \<Rightarrow> frame option \<Rightarrow> CameraCapture \<Rightarrow> bool \<times> CameraCapture" where
  "start opens first c =
     (let c1 = c\<lparr>capture := Some opens\<rparr> in
      if \<not> opens then (False, c1)
      else
        (let c2 = c1\<lparr>is_opened := True\<rparr>;
             ((g, f), h) = device_read first (heap c2);
             c3 = c2\<lparr>grabbed := g, frame := f, heap := h\<rparr>
         in if \<not> g then (False, c3)
            else (True, c3\<lparr>stop_thread := False,
                           thread := Some (length (workers c3)),
                           workers := workers c3 @ [\<lparr>wpc = LoopTest, w_grabbed = False,
                                                      w_frame = None\<rparr>]\<rparr>)))"

text \<open>One statement of the thread \<open>i\<close>; \<open>r\<close> is what the device yields if it is read.\<close>

definition worker_statement :: "frame option \<Rightarrow> CameraCapture \<Rightarrow> worker \<Rightarrow> worker \<times> CameraCapture" where
  "worker_statement r c w =
     (case wpc w of
        LoopTest \<Rightarrow>
          (if \<not> stop_thread c \<and> is_opened c then (w\<lparr>wpc := OpenTest\<rparr>, c)
           else (w\<lparr>wpc := Done\<rparr>, c))
      | OpenTest \<Rightarrow>
          (if capture c = Some True then (w\<lparr>wpc := ReadDevice\<rparr>, c)
           else (w\<lparr>wpc := Done\<rparr>, c))
      | ReadDevice \<Rightarrow>
          (let ((g, f), h) = device_read r (heap c)
           in (w\<lparr>wpc := (if g then SetGrabbed else LoopTest), w_grabbed := g, w_frame := f\<rparr>,
               c\<lparr>heap := h\<rparr>))
      | SetGrabbed \<Rightarrow> (w\<lparr>wpc := SetFrame\<rparr>, c\<lparr>grabbed := w_grabbed w\<rparr>)
      | SetFrame \<Rightarrow> (w\<lparr>wpc := LoopTest\<rparr>, c\<lparr>frame := w_frame w\<rparr>)
      | Done \<Rightarrow> (w, c))"

definition worker_step :: "nat \<Rightarrow> frame option \<Rightarrow> CameraCapture \<Rightarrow> CameraCapture" where
  "worker_step i r c =
     (if i < length (workers c)
      then (let (w, c') = worker_statement r c (workers c ! i)
            in c'\<lparr>workers := (workers c')[i := w]\<rparr>)
      else c)"

fun worker_steps :: "(nat \<times> frame option) list \<Rightarrow> CameraCapture \<Rightarrow> CameraCapture" where
  "worker_steps [] c = c"
| "worker_steps ((i, r) # xs) c = worker_steps xs (worker_step i r c)"

text \<open>
  \<open>read_frame\<close>: the pair it returns and the state, in which the copy has been
  allocated.
\<close>

definition cam_read_frame :: "CameraCapture \<Rightarrow> (bool \<times> ref option) \<times> CameraCapture" where
  "cam_read_frame c =
     (if \<not> is_opened c then ((False, None), c)
      else if grabbed c \<and> frame c \<noteq> None
      then (case frame c of
              Some a \<Rightarrow> ((True, Some (length (heap c))), c\<lparr>heap := heap c @ [heap c ! a]\<rparr>)
            | None \<Rightarrow> ((False, None), c))
      else ((False, None), c))"

text \<open>
  \<open>stop\<close>: the flag is set, the thread is joined for at most a second (\<open>during\<close> is
  what the threads do in that time), the device is released and \<open>is_opened\<close> is
  cleared.
\<close>

definition stop :: "(nat \<times> frame option) list \<Rightarrow> CameraCapture \<Rightarrow> CameraCapture" where
  "stop during c =
     (let c1 = c\<lparr>stop_thread := True\<rparr>;
          c2 = worker_steps during c1;
          c3 = (case capture c2 of None \<Rightarrow> c2 | Some b \<Rightarrow> c2\<lparr>capture := Some False\<rparr>)
      in c3\<lparr>is_opened := False\<rparr>)"

datatype cam_event =
    Start bool "frame option"
  | Worker nat "frame option"
  | ReadLatest
  | Stop "(nat \<times> frame option) list"

fun cam_event_state :: "CameraCapture \<Rightarrow> cam_event \<Rightarrow> CameraCapture" where
  "cam_event_state c (Start opens first) = snd (start opens first c)"
| "cam_event_state c (Worker i r) = worker_step i r c"
| "cam_event_state c ReadLatest = snd (cam_read_frame c)"
| "cam_event_state c (Stop during) = stop during c"

definition cam_events :: "CameraCapture \<Rightarrow> cam_event list \<Rightarrow> CameraCapture" where
  "cam_events c evs = foldl cam_event_state c evs"

text \<open>An event in which the device hands out no frame.\<close>

fun no_grab :: "cam_event \<Rightarrow> bool" where
  "no_grab (Start opens first) = (first = None)"
| "no_grab (Worker i r) = (r = None)"
| "no_grab ReadLatest = True"
| "no_grab (Stop during) = list_all (\<lambda>(i, r). r = None) during"

text \<open>An event that does not open the camera again.\<close>

fun no_start :: "cam_event \<Rightarrow> bool" where
  "no_start (Start opens first) = False"
| "no_start _ = True"


text \<open>
  The references the object and its threads hold: the attribute \<open>frame\<close> and the local
  variable \<open>frame\<close> of every thread.
\<close>

definition stored_refs :: "CameraCapture \<Rightarrow> ref set" where
  "stored_refs c = set_option (frame c) \<union> (\<Union>w \<in> set (workers c). set_option (w_frame w))"

text \<open>
  Two auxiliary notions for the proofs. In an idle state nothing has been grabbed and no
  thread is about to publish. One state grows into another when the heap has only been
  extended and every reference held afterwards was held before or is newly allocated.
\<close>

definition idle :: "CameraCapture \<Rightarrow> bool" where
  "idle c = (\<not> grabbed c \<and> list_all (\<lambda>w. wpc w \<noteq> SetGrabbed) (workers c))"

definition grows :: "CameraCapture \<Rightarrow> CameraCapture \<Rightarrow> bool" where
  "grows c c' =
     ((\<exists>ext. heap c' = heap c @ ext)
      \<and> stored_refs c' \<subseteq> stored_refs c \<union> {length (heap c) ..< length (heap c')})"


section \<open>Concrete inputs\<close>

text \<open>
  A file system with no files in which every path can be written, a frame of one pixel
  with three channels, two stand-ins for the JPEG encoder (one whose output is one byte
  longer than the mailbox holds, one whose output is the four bytes of the start and end
  markers of a JPEG stream), and a producer's mailbox as the constructor leaves it.
\<close>

definition fs_empty :: filesystem where
  "fs_empty = \<lparr>files = (\<lambda>p. None), writable = (\<lambda>p. True), makedirs_ok = (\<lambda>p. True)\<rparr>"

definition pixel_frame :: frame where
  "pixel_frame = \<lparr>shape = [1, 1, 3], pixels = [0, 0, 0]\<rparr>"

definition big_encoder :: encoder where
  "big_encoder fr q = Inr (Some (replicate (Suc MAX_FRAME_SIZE) 255))"

definition marker_encoder :: encoder where
  "marker_encoder fr q = Inr (Some [255, 216, 255, 217])"

definition created_map :: mmap_obj where
  "created_map =
     \<lparr>region = replicate 24 0 @ replicate MAX_FRAME_SIZE 0, pos = 24,
      access = ACCESS_WRITE, closed = False\<rparr>"

definition created_flag_map :: mmap_obj where
  "created_flag_map = \<lparr>region = [1, 0, 0, 0], pos = 0, access = ACCESS_DEFAULT, closed = False\<rparr>"

definition created_mailbox :: SharedFrameBuffer where
  "created_mailbox =
     \<lparr>file_path = ''/tmp/frame.mmap'', flag_path = ''/tmp/frame_flag.mmap'',
      mmap_file = Some created_map, flag_mmap = Some created_flag_map\<rparr>"

definition created_fs :: filesystem where
  "created_fs =
     fs_empty\<lparr>files := ((files fs_empty)(''/tmp/frame.mmap'' \<mapsto> replicate TOTAL_SIZE 0))
                          (''/tmp/frame_flag.mmap'' \<mapsto> [1, 0, 0, 0])\<rparr>"

text \<open>A mailbox whose header names a 1 x 1 frame of three channels with no payload.\<close>

definition sizeless_map :: mmap_obj where
  "sizeless_map =
     \<lparr>region = (u32_bytes 1 @ u32_bytes 1 @ u32_bytes 3 @ u32_bytes 0 @ u32_bytes 0 @ u32_bytes 0)
                @ replicate MAX_FRAME_SIZE 0,
      pos = 0, access = ACCESS_READ, closed = False\<rparr>"

definition sizeless_mailbox :: SharedFrameBuffer where
  "sizeless_mailbox = created_mailbox\<lparr>mmap_file := Some sizeless_map\<rparr>"

text \<open>A consumer's mailbox on the files a producer created, and the file system with the data file alone.\<close>

definition opened_map :: mmap_obj where
  "opened_map = \<lparr>region = replicate TOTAL_SIZE 0, pos = 0, access = ACCESS_READ, closed = False\<rparr>"

definition opened_mailbox :: SharedFrameBuffer where
  "opened_mailbox =
     \<lparr>file_path = ''/tmp/frame.mmap'', flag_path = ''/tmp/frame_flag.mmap'',
      mmap_file = Some opened_map, flag_mmap = Some created_flag_map\<rparr>"

definition fs_data_only :: filesystem where
  "fs_data_only = fs_empty\<lparr>files := (files fs_empty)(''/tmp/frame.mmap'' \<mapsto> replicate TOTAL_SIZE 0)\<rparr>"

text \<open>A camera after a successful \<open>start\<close> whose first read yields the one-pixel frame.\<close>

definition cam_grabbed :: CameraCapture where
  "cam_grabbed = cam_events CameraCapture_init [Start True (Some pixel_frame)]"

text \<open>
  The object as \<open>_create_flag_file\<close> leaves it when it succeeds, and the mailbox and the
  file system after \<open>SharedFrameBuffer('/tmp/frame.bin', create=True)\<close>, whose flag path
  is the data path.
\<close>

definition flag_created :: "SharedFrameBuffer \<Rightarrow> SharedFrameBuffer" where
  "flag_created s =
     (if flag_path s = file_path s
      then s\<lparr>mmap_file := map_option (rewritten [1, 0, 0, 0]) (mmap_file s)\<rparr>
      else s)\<lparr>flag_mmap := Some created_flag_map\<rparr>"

definition clobbered_map :: mmap_obj where
  "clobbered_map =
     \<lparr>region = ([1, 0, 0, 0] @ replicate 20 0) @ replicate MAX_FRAME_SIZE 0, pos = 24,
      access = ACCESS_WRITE, closed = False\<rparr>"

definition clobbered_mailbox :: SharedFrameBuffer where
  "clobbered_mailbox =
     \<lparr>file_path = ''/tmp/frame.bin'', flag_path = ''/tmp/frame.bin'',
      mmap_file = Some clobbered_map, flag_mmap = Some created_flag_map\<rparr>"

definition clobbered_fs :: filesystem where
  "clobbered_fs = fs_empty\<lparr>files := (files fs_empty)(''/tmp/frame.bin'' \<mapsto> [1, 0, 0, 0])\<rparr>"

text \<open>
  The file system with the data file alone in which only the data file can be opened for
  writing: the flag file can be neither opened nor created.
\<close>

definition fs_flag_denied :: filesystem where
  "fs_flag_denied = fs_data_only\<lparr>writable := (\<lambda>p. p = ''/tmp/frame.mmap'')\<rparr>"

text \<open>
  A file system with no files in which \<open>/srv/cam.mmap\<close> is the only directory a file can
  be written in.
\<close>

definition fs_srv :: filesystem where
  "fs_srv = \<lparr>files = (\<lambda>p. None), writable = (\<lambda>p. dirname p = ''/srv/cam.mmap''),
             makedirs_ok = (\<lambda>p. True)\<rparr>"

text \<open>
  Three more maps: one of four bytes, too short for a header; one whose header names a
  1 x 1 frame of three channels and a payload of four bytes; one with the same header
  and a payload of three bytes.
\<close>

definition short_map :: mmap_obj where
  "short_map = \<lparr>region = [1, 0, 0, 0], pos = 0, access = ACCESS_READ, closed = False\<rparr>"

definition jpeg_map :: mmap_obj where
  "jpeg_map =
     \<lparr>region = (u32_bytes 1 @ u32_bytes 1 @ u32_bytes 3 @ u32_bytes 0 @ u32_bytes 0 @ u32_bytes 4)
                @ [255, 216, 255, 217] @ replicate (MAX_FRAME_SIZE - 4) 0,
      pos = 0, access = ACCESS_READ, closed = False\<rparr>"

definition raw_map :: mmap_obj where
  "raw_map =
     \<lparr>region = (u32_bytes 1 @ u32_bytes 1 @ u32_bytes 3 @ u32_bytes 0 @ u32_bytes 0 @ u32_bytes 3)
                @ [7, 8, 9] @ replicate (MAX_FRAME_SIZE - 3) 0,
      pos = 0, access = ACCESS_READ, closed = False\<rparr>"


section \<open>The struct module: packing and unpacking\<close>

lemma uint_byte_of_int: "uint (word_of_int k :: byte) = k mod 256"
  by (simp add: uint_word_of_int)

lemma decomp:
  fixes v :: int
  shows "v mod 256 + 256 * (v div 256 mod 256) + 65536 * (v div 65536 mod 256)
        + 16777216 * (v div 16777216 mod 256) = v mod 4294967296"
proof -
  have s1: "v mod (256 * 256) = 256 * (v div 256 mod 256) + v mod 256"
    by (rule zmod_zmult2_eq) simp
  have s2: "v mod (65536 * 256) = 65536 * (v div 65536 mod 256) + v mod 65536"
    by (rule zmod_zmult2_eq) simp
  have s3: "v mod (16777216 * 256) = 16777216 * (v div 16777216 mod 256) + v mod 16777216"
    by (rule zmod_zmult2_eq) simp
  have n: "(256::int) * 256 = 65536" "(65536::int) * 256 = 16777216"
     "(16777216::int) * 256 = 4294967296" by simp_all
  show ?thesis using s1 s2 s3 unfolding n by (simp only: add_ac)
qed

lemma u32_value_bytes: "u32_value (u32_bytes v) = v mod 4294967296"
proof -
  have "u32_value (u32_bytes v) = v mod 256 + 256 * (v div 256 mod 256)
          + 65536 * (v div 65536 mod 256) + 16777216 * (v div 16777216 mod 256)"
    by (simp add: u32_value_def u32_bytes_def uint_byte_of_int)
  then show ?thesis by (simp only: decomp)
qed

lemma u32_roundtrip:
  assumes "0 \<le> v" "v < 4294967296"
  shows "u32_value (u32_bytes v) = v"
  using assms by (simp only: u32_value_bytes mod_pos_pos_trivial)

lemma length_u32_bytes [simp]: "length (u32_bytes v) = 4"
  by (simp add: u32_bytes_def)

lemma pack_6I_ok:
  assumes "in_u32 a" "in_u32 b" "in_u32 c" "in_u32 d" "in_u32 e" "in_u32 f"
  shows "pack_6I a b c d e f =
         Inr (u32_bytes a @ u32_bytes b @ u32_bytes c @ u32_bytes d @ u32_bytes e @ u32_bytes f)"
  using assms by (simp add: pack_6I_def pack_I_def in_u32_def)

lemma pack_6I_length: "pack_6I a b c d e f = Inr h \<Longrightarrow> length h = 24"
  by (auto simp: pack_6I_def pack_I_def split: if_splits)

lemma pack_6I_Inr:
  "pack_6I a b c d e f = Inr h \<Longrightarrow>
   in_u32 a \<and> in_u32 b \<and> in_u32 c \<and> in_u32 d \<and> in_u32 e \<and> in_u32 f"
  by (auto simp: pack_6I_def pack_I_def in_u32_def split: if_splits)

lemma unpack_pack_6I:
  assumes "pack_6I a b c d e f = Inr h"
  shows "unpack_6I h = Inr (a, b, c, d, e, f)"
proof -
  have r: "in_u32 a" "in_u32 b" "in_u32 c" "in_u32 d" "in_u32 e" "in_u32 f"
    using pack_6I_Inr [OF assms] by simp_all
  have h: "h = u32_bytes a @ u32_bytes b @ u32_bytes c @ u32_bytes d @ u32_bytes e @ u32_bytes f"
    using pack_6I_ok [OF r] assms by simp
  show ?thesis
    using r unfolding h unpack_6I_def in_u32_def
    by (simp add: u32_roundtrip)
qed

lemma TOTAL_SIZE_eq: "TOTAL_SIZE = 24 + MAX_FRAME_SIZE"
  by (simp add: TOTAL_SIZE_def HEADER_SIZE_def)

text \<open>What a successful write leaves in the map.\<close>

lemma write_frame_try_success:
  assumes m: "\<not> closed m" "access m \<noteq> ACCESS_READ" "length (region m) = TOTAL_SIZE"
    and fr: "shape fr = [h, w, c]"
    and enc: "imencode fr q = Inr (Some jpeg)" "length jpeg \<le> MAX_FRAME_SIZE"
    and hd: "pack_6I (int w) (int h) (int c) (stamp_sec now) (stamp_usec now)
               (int (length jpeg)) = Inr header"
  shows "write_frame_try imencode now m fr q =
         (Inr True, m\<lparr>region := header @ jpeg @ drop (24 + length jpeg) (region m),
                       pos := 24 + length jpeg\<rparr>)"
proof -
  have lh: "length header = 24" using hd by (rule pack_6I_length)
  have seek: "mmap_seek m 0 = Inr (m\<lparr>pos := 0\<rparr>)"
    using m by (simp add: mmap_seek_def)
  have w1: "mmap_write (m\<lparr>pos := 0\<rparr>) header
            = Inr (m\<lparr>region := header @ drop 24 (region m), pos := 24\<rparr>)"
    using m lh by (simp add: mmap_write_def TOTAL_SIZE_eq)
  have w2: "mmap_write (m\<lparr>region := header @ drop 24 (region m), pos := 24\<rparr>) jpeg
            = Inr (m\<lparr>region := header @ jpeg @ drop (24 + length jpeg) (region m),
                      pos := 24 + length jpeg\<rparr>)"
    using m lh enc(2) by (simp add: mmap_write_def TOTAL_SIZE_eq add.commute)
  have fl: "mmap_flush (m\<lparr>region := header @ jpeg @ drop (24 + length jpeg) (region m),
                      pos := 24 + length jpeg\<rparr>) = Inr ()"
    using m by (simp add: mmap_flush_def)
  show ?thesis
    using fr enc hd [unfolded stamp_sec_def stamp_usec_def] seek w1 w2 fl
    by (simp add: write_frame_try_def unpack_shape_def Let_def)
qed

text \<open>What the readers find in a map that starts with a packed header.\<close>

lemma read_header:
  assumes "\<not> closed m" "region m = header @ rest" "length header = 24"
  shows "mmap_seek m 0 = Inr (m\<lparr>pos := 0\<rparr>)"
    and "mmap_read (m\<lparr>pos := 0\<rparr>) HEADER_SIZE = Inr (header, m\<lparr>pos := 24\<rparr>)"
  using assms by (simp_all add: mmap_seek_def mmap_read_def HEADER_SIZE_def)

lemma read_frame_info_try_header:
  assumes "\<not> closed m" "region m = header @ rest"
    and "pack_6I w h c sec usec n = Inr header"
  shows "read_frame_info_try m =
         (if w = 0 \<or> h = 0 then (Inr None, m\<lparr>pos := 24\<rparr>)
          else (Inr (Some \<lparr>info_width = w, info_height = h, info_channels = c,
                            info_timestamp = timestamp_of sec usec,
                            info_frame_size = n\<rparr>), m\<lparr>pos := 24\<rparr>))"
  using read_header [OF assms(1,2) pack_6I_length [OF assms(3)]] unpack_pack_6I [OF assms(3)]
  by (simp add: read_frame_info_try_def)

lemma read_frame_try_header:
  assumes "\<not> closed m" "region m = header @ payload @ rest"
    and "pack_6I w h c sec usec (int (length payload)) = Inr header"
  shows "read_frame_try m =
         (if w = 0 \<or> h = 0 \<or> payload = [] then (Inr None, m\<lparr>pos := 24\<rparr>)
          else (case frombuffer_reshape payload h w c of
                  Inl e \<Rightarrow> (Inl e, m\<lparr>pos := 24 + length payload\<rparr>)
                | Inr fr \<Rightarrow> (Inr (Some (fr, timestamp_of sec usec)),
                              m\<lparr>pos := 24 + length payload\<rparr>)))"
proof -
  have lh: "length header = 24" using assms(3) by (rule pack_6I_length)
  have rd: "mmap_read (m\<lparr>pos := 24\<rparr>) (length payload)
            = Inr (payload, m\<lparr>pos := 24 + length payload\<rparr>)"
    using assms(1,2) lh by (simp add: mmap_read_def)
  show ?thesis
    using read_header [OF assms(1,2) lh] unpack_pack_6I [OF assms(3)] rd
    by (simp add: read_frame_try_def split: sum.splits)
qed



section \<open>Timestamps at the clock readings used below\<close>

lemma clock_example:
  "stamp_sec (6800000001 / 4) = 1700000000"
  "stamp_usec (6800000001 / 4) = 250000"
  "timestamp_of 1700000000 250000 = 6800000001 / 4"
  by code_simp+

lemma timestamp_of_zero: "timestamp_of 0 0 = 0"
  by code_simp

text \<open>
  Rounding shows at the clock reading 0.29: the nearest float lies below 0.29, its
  product with 1000000 rounds up to 290000, and the header gets 290000 microseconds.
\<close>

lemma clock_rounding_example:
  "to_double (29 / 100) = 5224175567749775 / 18014398509481984"
  "stamp_sec (29 / 100) = 0"
  "stamp_usec (29 / 100) = 290000"
  "timestamp_of 0 290000 = to_double (29 / 100)"
  by code_simp+


section \<open>Oversized frames\<close>

text \<open>
  C2. When the encoder's output for a frame is longer than \<open>MAX_FRAME_SIZE\<close>,
  \<open>write_frame\<close> returns False and the whole object, the region of the map (header and
  payload) included, is as it was before the call.
\<close>

theorem write_frame_too_large:
  assumes "imencode fr quality = Inr (Some jpeg_bytes)"
    and "length jpeg_bytes > MAX_FRAME_SIZE"
  shows "write_frame imencode now s fr quality = (Inr False, s)"
proof (cases "mmap_file s")
  case None
  then show ?thesis by (simp add: write_frame_def)
next
  case (Some m)
  have "write_frame_try imencode now m fr quality = (Inr False, m)
        \<or> (\<exists>e. write_frame_try imencode now m fr quality = (Inl e, m))"
    using assms by (simp add: write_frame_try_def split: sum.splits prod.splits)
  moreover have "s\<lparr>mmap_file := Some m\<rparr> = s" using Some by simp
  ultimately show ?thesis using Some by (auto simp: write_frame_def)
qed

theorem write_frame_too_large_witness:
  "big_encoder pixel_frame 70 = Inr (Some (replicate (Suc MAX_FRAME_SIZE) 255))
   \<and> length (replicate (Suc MAX_FRAME_SIZE) (255 :: byte)) > MAX_FRAME_SIZE
   \<and> write_frame big_encoder 1700000000 created_mailbox pixel_frame 70
       = (Inr False, created_mailbox)"
proof -
  have e: "big_encoder pixel_frame 70 = Inr (Some (replicate (Suc MAX_FRAME_SIZE) 255))"
    by (simp add: big_encoder_def)
  have l: "length (replicate (Suc MAX_FRAME_SIZE) (255 :: byte)) > MAX_FRAME_SIZE"
    by simp
  show ?thesis
    using e l
      write_frame_too_large [of big_encoder pixel_frame 70 "replicate (Suc MAX_FRAME_SIZE) 255"
        1700000000 created_mailbox]
    by simp
qed


section \<open>What the constructor leaves behind\<close>

lemma replicate_24: "replicate 24 (0::byte) = [0,0,0,0, 0,0,0,0, 0,0,0,0, 0,0,0,0, 0,0,0,0, 0,0,0,0]"
  by (simp add: numeral_eq_Suc)

lemma u32_bytes_0: "u32_bytes 0 = [0, 0, 0, 0]"
  by (simp add: u32_bytes_def)

lemma u32_bytes_1: "u32_bytes 1 = [1, 0, 0, 0]"
  by (simp add: u32_bytes_def)

lemma pack_6I_zero: "pack_6I 0 0 0 0 0 0 = Inr (replicate 24 0)"
  by (simp add: pack_6I_def pack_I_def in_u32_def u32_bytes_0 replicate_24)

lemma pack_I_one: "pack_I 1 = Inr [1, 0, 0, 0]"
  by (simp add: pack_I_def in_u32_def u32_bytes_1)

lemma create_buffer_result:
  assumes "create_buffer s fs = Inr (s', fs')"
  shows "s' = s\<lparr>mmap_file := Some created_map\<rparr>"
    and "fs' = fs\<lparr>files := (files fs)(file_path s \<mapsto> replicate TOTAL_SIZE 0)\<rparr>"
  using assms
  by (auto simp: create_buffer_def makedirs_def write_file_def open_rw_def mmap_new_def
        mmap_seek_def mmap_write_def pack_6I_zero created_map_def TOTAL_SIZE_eq
        replicate_add [symmetric]
      split: if_splits sum.splits)

lemma create_flag_file_result:
  assumes "create_flag_file s fs = Inr (s', fs')"
  shows "s' = flag_created s"
    and "fs' = fs\<lparr>files := (files fs)(flag_path s \<mapsto> [1, 0, 0, 0])\<rparr>"
  using assms
  by (auto simp: create_flag_file_def pack_I_one write_file_def open_rw_def mmap_new_def
        created_flag_map_def flag_created_def Let_def
      split: if_splits sum.splits)

lemma create_flag_file_ok:
  assumes "writable fs (flag_path s)"
  shows "create_flag_file s fs = Inr (flag_created s,
            fs\<lparr>files := (files fs)(flag_path s \<mapsto> [1, 0, 0, 0])\<rparr>)"
  using assms
  by (simp add: create_flag_file_def pack_I_one write_file_def open_rw_def mmap_new_def
        created_flag_map_def flag_created_def Let_def)

lemma create_flag_file_denied:
  assumes "\<not> writable fs (flag_path s)"
  shows "create_flag_file s fs = Inl OSError"
  using assms by (simp add: create_flag_file_def pack_I_one write_file_def)

lemma flag_created_fields:
  "flag_mmap (flag_created s) = Some created_flag_map"
  "file_path (flag_created s) = file_path s"
  "flag_path (flag_created s) = flag_path s"
  "mmap_file (flag_created s)
   = (if flag_path s = file_path s then map_option (rewritten [1, 0, 0, 0]) (mmap_file s)
      else mmap_file s)"
  by (simp_all add: flag_created_def)

lemma flag_created_separate:
  assumes "flag_path s \<noteq> file_path s"
  shows "flag_created s = s\<lparr>flag_mmap := Some created_flag_map\<rparr>"
  using assms by (simp add: flag_created_def)

lemma init_create_result:
  assumes "SharedFrameBuffer_init fs path True = Inr (s, fs')"
  shows "s = flag_created ((new_object path)\<lparr>mmap_file := Some created_map\<rparr>)"
proof -
  obtain s1 fs1 where a: "create_buffer (new_object path) fs = Inr (s1, fs1)"
    and b: "create_flag_file s1 fs1 = Inr (s, fs')"
    using assms by (auto simp: SharedFrameBuffer_init_def split: sum.splits)
  show ?thesis
    using create_buffer_result(1) [OF a] create_flag_file_result(1) [OF b] by simp
qed

lemma init_create_maps:
  assumes "SharedFrameBuffer_init fs path True = Inr (s, fs')"
  shows "flag_mmap s = Some created_flag_map"
    and "mmap_file s = Some (if flag_path_for path = path then rewritten [1, 0, 0, 0] created_map
                             else created_map)"
  using init_create_result [OF assms]
  by (simp_all add: flag_created_fields new_object_def)

lemma created_map_header: "region created_map = replicate 24 0 @ [] @ replicate MAX_FRAME_SIZE 0"
  by (simp add: created_map_def)

lemma created_map_reads:
  "fst (read_frame_try created_map) = Inr None" "fst (read_frame_info_try created_map) = Inr None"
proof -
  have c: "\<not> closed created_map" by (simp add: created_map_def)
  have p: "pack_6I 0 0 0 0 0 (int (length ([] :: byte list))) = Inr (replicate 24 0)"
    using pack_6I_zero by simp
  show "fst (read_frame_try created_map) = Inr None"
    using read_frame_try_header [OF c created_map_header p] by simp
  have h2: "region created_map = replicate 24 0 @ replicate MAX_FRAME_SIZE 0"
    by (simp add: created_map_def)
  show "fst (read_frame_info_try created_map) = Inr None"
    using read_frame_info_try_header [OF c h2 pack_6I_zero] by simp
qed

text \<open>The data map after the flag value has been written over the data file.\<close>

lemma take_past_prefix: "length xs = k \<Longrightarrow> take (k + n) (xs @ ys) = xs @ take n ys"
  by simp

lemma rewritten_created_map: "rewritten [1, 0, 0, 0] created_map = clobbered_map"
proof -
  have l: "length [1, 0, 0, 0 :: byte] = 4" by simp
  have "take (4 + (20 + MAX_FRAME_SIZE)) ([1, 0, 0, 0] @ replicate (24 + MAX_FRAME_SIZE) (0::byte))
        = [1, 0, 0, 0] @ take (20 + MAX_FRAME_SIZE) (replicate (24 + MAX_FRAME_SIZE) 0)"
    by (rule take_past_prefix [OF l])
  also have "\<dots> = [1, 0, 0, 0] @ replicate (20 + MAX_FRAME_SIZE) 0"
    by (simp add: min_def)
  also have "\<dots> = [1, 0, 0, 0] @ replicate 20 0 @ replicate MAX_FRAME_SIZE 0"
    by (simp only: replicate_add)
  finally have t: "take (24 + MAX_FRAME_SIZE) ([1, 0, 0, 0] @ replicate (24 + MAX_FRAME_SIZE) (0::byte))
        = [1, 0, 0, 0] @ replicate 20 0 @ replicate MAX_FRAME_SIZE 0"
    by (simp only: add.assoc [symmetric]) simp
  have "region (rewritten [1, 0, 0, 0] created_map)
        = take (24 + MAX_FRAME_SIZE) ([1, 0, 0, 0] @ replicate (24 + MAX_FRAME_SIZE) 0)"
    by (simp only: rewritten_def created_map_def mmap_obj.simps length_append length_replicate)
  then have "region (rewritten [1, 0, 0, 0] created_map)
        = ([1, 0, 0, 0] @ replicate 20 0) @ replicate MAX_FRAME_SIZE 0"
    using t by simp
  then show ?thesis
    by (simp add: rewritten_def created_map_def clobbered_map_def)
qed

lemma clobbered_header:
  "pack_6I 1 0 0 0 0 0 = Inr ([1, 0, 0, 0] @ replicate 20 0)"
proof -
  have "replicate 20 (0::byte) = [0,0,0,0, 0,0,0,0, 0,0,0,0, 0,0,0,0, 0,0,0,0]"
    by (simp add: numeral_eq_Suc)
  then show ?thesis
    by (simp add: pack_6I_def pack_I_def in_u32_def u32_bytes_0 u32_bytes_1)
qed

lemma clobbered_map_reads:
  "fst (read_frame_try clobbered_map) = Inr None"
  "fst (read_frame_info_try clobbered_map) = Inr None"
proof -
  have c: "\<not> closed clobbered_map" by (simp add: clobbered_map_def created_map_def)
  have r1: "region clobbered_map = ([1, 0, 0, 0] @ replicate 20 0) @ [] @ replicate MAX_FRAME_SIZE 0"
    by (simp add: clobbered_map_def)
  have r2: "region clobbered_map = ([1, 0, 0, 0] @ replicate 20 0) @ replicate MAX_FRAME_SIZE 0"
    by (simp add: clobbered_map_def)
  have p: "pack_6I 1 0 0 0 0 (int (length ([] :: byte list))) = Inr ([1, 0, 0, 0] @ replicate 20 0)"
    using clobbered_header by simp
  show "fst (read_frame_try clobbered_map) = Inr None"
    using read_frame_try_header [OF c r1 p] by simp
  show "fst (read_frame_info_try clobbered_map) = Inr None"
    using read_frame_info_try_header [OF c r2 clobbered_header] by simp
qed

lemma fst_read_frame:
  "fst (read_frame s) =
     (case mmap_file s of None \<Rightarrow> Inr None
      | Some m \<Rightarrow> (case fst (read_frame_try m) of Inl e \<Rightarrow> Inr None | Inr r \<Rightarrow> Inr r))"
  by (auto simp: read_frame_def split: option.splits prod.splits sum.splits)

lemma fst_read_frame_info:
  "fst (read_frame_info s) =
     (case mmap_file s of None \<Rightarrow> Inr None
      | Some m \<Rightarrow> (case fst (read_frame_info_try m) of Inl e \<Rightarrow> Inr None | Inr r \<Rightarrow> Inr r))"
  by (auto simp: read_frame_info_def split: option.splits prod.splits sum.splits)

text \<open>
  Where the constructor succeeds with \<open>create=True\<close>, both readers report no frame; and
  where the flag path is a path of its own, the map is zero from its first byte to its
  last.
\<close>

lemma created_reads_none:
  assumes "SharedFrameBuffer_init fs path True = Inr (s, fs')"
  shows "fst (read_frame s) = Inr None \<and> fst (read_frame_info s) = Inr None"
  using init_create_maps(2) [OF assms] created_map_reads clobbered_map_reads
  by (simp add: fst_read_frame fst_read_frame_info rewritten_created_map)

lemma created_region_zero:
  assumes "SharedFrameBuffer_init fs path True = Inr (s, fs')" "flag_path_for path \<noteq> path"
  shows "\<exists>m. mmap_file s = Some m \<and> region m = replicate 24 0 @ replicate MAX_FRAME_SIZE 0"
  using init_create_maps(2) [OF assms(1)] assms(2) by (simp add: created_map_def)

lemma flag_path_example: "flag_path_for ''/tmp/frame.mmap'' = ''/tmp/frame_flag.mmap''"
  by (simp add: flag_path_for_def str_replace_def)

lemma flag_path_bin: "flag_path_for ''/tmp/frame.bin'' = ''/tmp/frame.bin''"
  by (simp add: flag_path_for_def str_replace_def)

lemma dirname_example: "dirname ''/tmp/frame.mmap'' = ''/tmp''" "dirname ''/tmp/frame.bin'' = ''/tmp''"
  by (simp_all add: dirname_def)

lemma create_buffer_ok:
  assumes "dirname path \<noteq> []" "makedirs_ok fs (dirname path)" "writable fs path"
  shows "create_buffer (new_object path) fs
         = Inr ((new_object path)\<lparr>mmap_file := Some created_map\<rparr>,
                fs\<lparr>files := (files fs)(path \<mapsto> replicate TOTAL_SIZE 0)\<rparr>)"
proof -
  have "\<exists>s1 fs1. create_buffer (new_object path) fs = Inr (s1, fs1)"
    using assms
    by (simp add: create_buffer_def makedirs_def write_file_def open_rw_def mmap_new_def
        mmap_seek_def mmap_write_def pack_6I_zero new_object_def TOTAL_SIZE_eq)
  then obtain s1 fs1 where a: "create_buffer (new_object path) fs = Inr (s1, fs1)"
    by blast
  show ?thesis
    using a create_buffer_result [OF a] by (simp add: new_object_def)
qed

lemma init_create_ok:
  assumes "dirname path \<noteq> []"
  shows "SharedFrameBuffer_init fs_empty path True
         = Inr (flag_created ((new_object path)\<lparr>mmap_file := Some created_map\<rparr>),
                fs_empty\<lparr>files := ((files fs_empty)(path \<mapsto> replicate TOTAL_SIZE 0))
                                      (flag_path_for path \<mapsto> [1, 0, 0, 0])\<rparr>)"
proof -
  let ?s1 = "(new_object path)\<lparr>mmap_file := Some created_map\<rparr>"
  let ?fs1 = "fs_empty\<lparr>files := (files fs_empty)(path \<mapsto> replicate TOTAL_SIZE 0)\<rparr>"
  have w: "writable ?fs1 (flag_path ?s1)" by (simp add: fs_empty_def)
  have "SharedFrameBuffer_init fs_empty path True = create_flag_file ?s1 ?fs1"
    using create_buffer_ok [OF assms, of fs_empty]
    by (simp add: SharedFrameBuffer_init_def fs_empty_def)
  also have "\<dots> = Inr (flag_created ?s1,
                ?fs1\<lparr>files := (files ?fs1)(flag_path ?s1 \<mapsto> [1, 0, 0, 0])\<rparr>)"
    by (rule create_flag_file_ok [OF w])
  finally show ?thesis by (simp add: new_object_def)
qed

lemma init_create_example:
  "SharedFrameBuffer_init fs_empty ''/tmp/frame.mmap'' True = Inr (created_mailbox, created_fs)"
proof -
  have d: "dirname ''/tmp/frame.mmap'' \<noteq> []" by (simp add: dirname_example)
  have s: "flag_created ((new_object ''/tmp/frame.mmap'')\<lparr>mmap_file := Some created_map\<rparr>)
           = created_mailbox"
    by (simp add: flag_created_def new_object_def flag_path_example created_mailbox_def)
  show ?thesis
    using init_create_ok [OF d] s by (simp add: created_fs_def flag_path_example)
qed

lemma init_create_bin:
  "SharedFrameBuffer_init fs_empty ''/tmp/frame.bin'' True = Inr (clobbered_mailbox, clobbered_fs)"
proof -
  have d: "dirname ''/tmp/frame.bin'' \<noteq> []" by (simp add: dirname_example)
  have s: "flag_created ((new_object ''/tmp/frame.bin'')\<lparr>mmap_file := Some created_map\<rparr>)
           = clobbered_mailbox"
    by (simp add: flag_created_def new_object_def flag_path_bin clobbered_mailbox_def
        rewritten_created_map)
  show ?thesis
    using init_create_ok [OF d] s by (simp add: clobbered_fs_def flag_path_bin)
qed


section \<open>A mailbox that was never written\<close>

text \<open>
  C3. The constructor is called with \<open>create=True\<close> on the path \<open>/tmp/frame.bin\<close>, which
  holds no \<open>.mmap\<close>, so that the flag path is the data path. It succeeds; the data file
  is then the four bytes of the flag, and the header seen through the map starts with
  the flag value 1 and is not all zero. Both readers still report no frame (the header
  reads as width 1, height 0).
\<close>

theorem fresh_mailbox_header_overwritten:
  "SharedFrameBuffer_init fs_empty ''/tmp/frame.bin'' True = Inr (clobbered_mailbox, clobbered_fs)
   \<and> flag_path clobbered_mailbox = file_path clobbered_mailbox
   \<and> files clobbered_fs ''/tmp/frame.bin'' = Some [1, 0, 0, 0]
   \<and> mmap_file clobbered_mailbox = Some clobbered_map
   \<and> take 24 (region clobbered_map) = [1, 0, 0, 0] @ replicate 20 0
   \<and> take 24 (region clobbered_map) \<noteq> replicate 24 0
   \<and> fst (read_frame clobbered_mailbox) = Inr None
   \<and> fst (read_frame_info clobbered_mailbox) = Inr None"
proof -
  have t: "take 24 (region clobbered_map) = [1, 0, 0, 0] @ replicate 20 0"
    by (simp add: clobbered_map_def)
  have n: "[1, 0, 0, 0] @ replicate 20 0 \<noteq> replicate 24 (0::byte)"
    by (simp add: replicate_24)
  have m: "mmap_file clobbered_mailbox = Some clobbered_map"
    by (simp add: clobbered_mailbox_def)
  have r: "fst (read_frame clobbered_mailbox) = Inr None"
    "fst (read_frame_info clobbered_mailbox) = Inr None"
    using m clobbered_map_reads by (simp_all add: fst_read_frame fst_read_frame_info)
  have f: "files clobbered_fs ''/tmp/frame.bin'' = Some [1, 0, 0, 0]"
    by (simp add: clobbered_fs_def)
  have p: "flag_path clobbered_mailbox = file_path clobbered_mailbox"
    by (simp add: clobbered_mailbox_def)
  show ?thesis using init_create_bin t n m r f p by simp
qed


section \<open>The preview flag\<close>

lemma fst_is_preview:
  "is_preview_enabled s =
     Inr (case flag_mmap s of None \<Rightarrow> False
          | Some fm \<Rightarrow> \<not> closed fm \<and> 4 \<le> length (region fm) \<and> u32_value (take 4 (region fm)) = 1)"
  by (auto simp: is_preview_enabled_def is_preview_enabled_try_def mmap_bool_def mmap_slice_def
        unpack_I_def split: option.splits sum.splits bool.splits if_splits)

lemma u32_value_one: "u32_value [1, 0, 0, 0] = 1"
  by (simp add: u32_value_def)

text \<open>
  C5. \<open>is_preview_enabled\<close> never raises; it returns True exactly when the flag map
  is there, is not closed and its four bytes hold the unsigned value 1; when reading the
  flag raises, it returns False; and on the object the constructor returns for
  \<open>create=True\<close> it returns True.
\<close>

theorem preview_flag:
  "is_preview_enabled s =
     Inr (case flag_mmap s of None \<Rightarrow> False
          | Some fm \<Rightarrow> \<not> closed fm \<and> 4 \<le> length (region fm) \<and> u32_value (take 4 (region fm)) = 1)
   \<and> (\<forall>e. is_preview_enabled_try s = Inl e \<longrightarrow> is_preview_enabled s = Inr False)
   \<and> (\<forall>fs path fs'. SharedFrameBuffer_init fs path True = Inr (s, fs')
         \<longrightarrow> is_preview_enabled s = Inr True)"
proof -
  have a: "\<forall>e. is_preview_enabled_try s = Inl e \<longrightarrow> is_preview_enabled s = Inr False"
    by (simp add: is_preview_enabled_def)
  have b: "is_preview_enabled s = Inr True"
    if "SharedFrameBuffer_init fs path True = Inr (s, fs')" for fs path fs'
    using init_create_maps(1) [OF that]
    by (simp add: fst_is_preview created_flag_map_def u32_value_one)
  show ?thesis using a b fst_is_preview by blast
qed

theorem preview_flag_witness:
  "SharedFrameBuffer_init fs_empty ''/tmp/frame.mmap'' True = Inr (created_mailbox, created_fs)
   \<and> is_preview_enabled created_mailbox = Inr True
   \<and> is_preview_enabled_try (created_mailbox\<lparr>flag_mmap := Some (created_flag_map\<lparr>closed := True\<rparr>)\<rparr>)
       = Inl ValueError
   \<and> is_preview_enabled (created_mailbox\<lparr>flag_mmap := Some (created_flag_map\<lparr>closed := True\<rparr>)\<rparr>)
       = Inr False
   \<and> is_preview_enabled (created_mailbox\<lparr>flag_mmap := Some (created_flag_map\<lparr>region := [0, 0, 0, 0]\<rparr>)\<rparr>)
       = Inr False"
proof -
  have t: "is_preview_enabled_try (created_mailbox\<lparr>flag_mmap := Some (created_flag_map\<lparr>closed := True\<rparr>)\<rparr>)
       = Inl ValueError"
    by (simp add: is_preview_enabled_try_def mmap_bool_def)
  have z: "u32_value [0, 0, 0, 0] \<noteq> 1" by (simp add: u32_value_def)
  have on: "is_preview_enabled created_mailbox = Inr True"
    using preview_flag [of created_mailbox] init_create_example by blast
  have off: "is_preview_enabled (created_mailbox\<lparr>flag_mmap := Some (created_flag_map\<lparr>closed := True\<rparr>)\<rparr>)
       = Inr False"
    using preview_flag [of "created_mailbox\<lparr>flag_mmap := Some (created_flag_map\<lparr>closed := True\<rparr>)\<rparr>"] t
    by blast
  have zero: "is_preview_enabled (created_mailbox\<lparr>flag_mmap := Some (created_flag_map\<lparr>region := [0, 0, 0, 0]\<rparr>)\<rparr>)
       = Inr False"
    using preview_flag [of "created_mailbox\<lparr>flag_mmap := Some (created_flag_map\<lparr>region := [0, 0, 0, 0]\<rparr>)\<rparr>"] z
    by simp
  show ?thesis
    using init_create_example t on off zero by simp
qed


section \<open>Header validation of the two readers\<close>

lemma sizeless_header:
  "pack_6I 1 1 3 0 0 0
   = Inr (u32_bytes 1 @ u32_bytes 1 @ u32_bytes 3 @ u32_bytes 0 @ u32_bytes 0 @ u32_bytes 0)"
  by (rule pack_6I_ok) (simp_all add: in_u32_def)

text \<open>
  C4. On a header with width 1, height 1 and frame size 0, \<open>read_frame\<close> reports no
  frame, and \<open>read_frame_info\<close> returns the metadata: its test leaves the frame size
  out.
\<close>

theorem read_frame_info_ignores_frame_size:
  "fst (read_frame sizeless_mailbox) = Inr None
   \<and> fst (read_frame_info sizeless_mailbox)
       = Inr (Some \<lparr>info_width = 1, info_height = 1, info_channels = 3, info_timestamp = 0,
                    info_frame_size = 0\<rparr>)"
proof -
  have c: "\<not> closed sizeless_map" by (simp add: sizeless_map_def)
  have r1: "region sizeless_map
            = (u32_bytes 1 @ u32_bytes 1 @ u32_bytes 3 @ u32_bytes 0 @ u32_bytes 0 @ u32_bytes 0)
              @ [] @ replicate MAX_FRAME_SIZE 0"
    by (simp add: sizeless_map_def)
  have r2: "region sizeless_map
            = (u32_bytes 1 @ u32_bytes 1 @ u32_bytes 3 @ u32_bytes 0 @ u32_bytes 0 @ u32_bytes 0)
              @ replicate MAX_FRAME_SIZE 0"
    by (simp add: sizeless_map_def)
  have p: "pack_6I 1 1 3 0 0 (int (length ([] :: byte list)))
           = Inr (u32_bytes 1 @ u32_bytes 1 @ u32_bytes 3 @ u32_bytes 0 @ u32_bytes 0 @ u32_bytes 0)"
    using sizeless_header by simp
  have a: "fst (read_frame_try sizeless_map) = Inr None"
    using read_frame_try_header [OF c r1 p] by simp
  have b: "fst (read_frame_info_try sizeless_map)
           = Inr (Some \<lparr>info_width = 1, info_height = 1, info_channels = 3, info_timestamp = 0,
                    info_frame_size = 0\<rparr>)"
    using read_frame_info_try_header [OF c r2 sizeless_header] by (simp add: timestamp_of_zero)
  show ?thesis
    using a b by (simp add: fst_read_frame fst_read_frame_info sizeless_mailbox_def)
qed

section \<open>Reading back what was written\<close>

lemma write_frame_success:
  assumes m: "mmap_file s = Some m" "\<not> closed m" "access m \<noteq> ACCESS_READ"
      "length (region m) = TOTAL_SIZE"
    and fr: "shape fr = [h, w, c]"
    and enc: "imencode fr q = Inr (Some jpeg)" "length jpeg \<le> MAX_FRAME_SIZE"
    and hd: "pack_6I (int w) (int h) (int c) (stamp_sec now) (stamp_usec now)
               (int (length jpeg)) = Inr header"
  shows "write_frame imencode now s fr q =
         (Inr True, s\<lparr>mmap_file := Some (m\<lparr>region := header @ jpeg @ drop (24 + length jpeg) (region m),
                                            pos := 24 + length jpeg\<rparr>)\<rparr>)"
  using m(1) write_frame_try_success [where imencode = imencode and fr = fr and q = q, OF m(2,3,4) fr enc hd]
  by (simp add: write_frame_def)

lemma write_then_read:
  assumes m: "mmap_file s = Some m" "\<not> closed m" "access m \<noteq> ACCESS_READ"
      "length (region m) = TOTAL_SIZE"
    and fr: "shape fr = [h, w, c]"
    and enc: "imencode fr q = Inr (Some jpeg)" "length jpeg \<le> MAX_FRAME_SIZE"
    and hd: "pack_6I (int w) (int h) (int c) (stamp_sec now) (stamp_usec now)
               (int (length jpeg)) = Inr header"
  shows "fst (write_frame imencode now s fr q) = Inr True"
    and "fst (read_frame (snd (write_frame imencode now s fr q))) =
         (if w = 0 \<or> h = 0 \<or> jpeg = [] \<or> length jpeg \<noteq> h * w * c then Inr None
          else Inr (Some (\<lparr>shape = [h, w, c], pixels = jpeg\<rparr>,
                 timestamp_of (stamp_sec now) (stamp_usec now))))"
    and "fst (read_frame_info (snd (write_frame imencode now s fr q))) =
         (if w = 0 \<or> h = 0 then Inr None
          else Inr (Some \<lparr>info_width = int w, info_height = int h, info_channels = int c,
                 info_timestamp = timestamp_of (stamp_sec now) (stamp_usec now),
                 info_frame_size = int (length jpeg)\<rparr>))"
proof -
  let ?m' = "m\<lparr>region := header @ jpeg @ drop (24 + length jpeg) (region m),
               pos := 24 + length jpeg\<rparr>"
  have w: "write_frame imencode now s fr q = (Inr True, s\<lparr>mmap_file := Some ?m'\<rparr>)"
    by (rule write_frame_success [where imencode = imencode and fr = fr and q = q, OF m fr enc hd])
  show "fst (write_frame imencode now s fr q) = Inr True" using w by simp
  have c: "\<not> closed ?m'" using m(2) by simp
  have r: "region ?m' = header @ jpeg @ drop (24 + length jpeg) (region m)" by simp
  have r2: "region ?m' = header @ (jpeg @ drop (24 + length jpeg) (region m))" by simp
  have prod: "(int (length jpeg) = int h * int w * int c) = (length jpeg = h * w * c)"
    by (metis (no_types) of_nat_eq_iff of_nat_mult)
  show "fst (read_frame (snd (write_frame imencode now s fr q))) =
         (if w = 0 \<or> h = 0 \<or> jpeg = [] \<or> length jpeg \<noteq> h * w * c then Inr None
          else Inr (Some (\<lparr>shape = [h, w, c], pixels = jpeg\<rparr>,
                 timestamp_of (stamp_sec now) (stamp_usec now))))"
    unfolding w using read_frame_try_header [OF c r hd] prod
    by (simp add: fst_read_frame frombuffer_reshape_def)
  show "fst (read_frame_info (snd (write_frame imencode now s fr q))) =
         (if w = 0 \<or> h = 0 then Inr None
          else Inr (Some \<lparr>info_width = int w, info_height = int h, info_channels = int c,
                 info_timestamp = timestamp_of (stamp_sec now) (stamp_usec now),
                 info_frame_size = int (length jpeg)\<rparr>))"
    unfolding w using read_frame_info_try_header [OF c r2 hd]
    by (simp add: fst_read_frame_info)
qed

lemma length_created_map: "length (region created_map) = TOTAL_SIZE"
  by (simp add: created_map_def TOTAL_SIZE_eq)

text \<open>
  C1. A frame of one pixel is written to a new mailbox; the encoder's output has four
  bytes. \<open>write_frame\<close> returns True, \<open>read_frame_info\<close> then returns the six header
  fields as written, and \<open>read_frame\<close> returns \<open>(None, None)\<close>: it reshapes the
  stored bytes as they are, and four bytes are not a 1 x 1 x 3 raster.
\<close>

theorem write_then_read_frame_fails:
  "fst (write_frame marker_encoder (6800000001 / 4) created_mailbox pixel_frame 70) = Inr True
   \<and> fst (read_frame (snd (write_frame marker_encoder (6800000001 / 4) created_mailbox
                              pixel_frame 70))) = Inr None
   \<and> fst (read_frame_info (snd (write_frame marker_encoder (6800000001 / 4) created_mailbox
                                   pixel_frame 70)))
       = Inr (Some \<lparr>info_width = 1, info_height = 1, info_channels = 3,
                    info_timestamp = 6800000001 / 4, info_frame_size = 4\<rparr>)"
proof -
  have m: "mmap_file created_mailbox = Some created_map" "\<not> closed created_map"
    "access created_map \<noteq> ACCESS_READ"
    by (simp_all add: created_mailbox_def created_map_def)
  have fr: "shape pixel_frame = [1, 1, 3]" by (simp add: pixel_frame_def)
  have enc: "marker_encoder pixel_frame 70 = Inr (Some [255, 216, 255, 217])"
    "length [255, 216, 255, 217 :: byte] \<le> MAX_FRAME_SIZE"
    by (simp_all add: marker_encoder_def MAX_FRAME_SIZE_def)
  have hd: "pack_6I (int 1) (int 1) (int 3) (stamp_sec (6800000001 / 4))
              (stamp_usec (6800000001 / 4)) (int (length [255, 216, 255, 217 :: byte]))
            = Inr (u32_bytes 1 @ u32_bytes 1 @ u32_bytes 3 @ u32_bytes 1700000000
                   @ u32_bytes 250000 @ u32_bytes 4)"
    unfolding clock_example by (simp add: pack_6I_ok in_u32_def)
  note r = write_then_read [where imencode = marker_encoder and fr = pixel_frame and q = 70,
      OF m length_created_map fr enc hd]
  have ts: "timestamp_of (stamp_sec (6800000001 / 4)) (stamp_usec (6800000001 / 4))
            = 6800000001 / 4"
    unfolding clock_example ..
  show ?thesis using r unfolding ts by simp
qed

section \<open>The readers never raise\<close>

lemma u32_value_nonneg: "0 \<le> u32_value bs"
  by (simp add: u32_value_def)

lemma unpack_6I_nonneg:
  assumes "unpack_6I bs = Inr (w, h, c, sec, usec, n)"
  shows "0 \<le> w \<and> 0 \<le> h \<and> 0 \<le> c \<and> 0 \<le> n \<and> length bs = 24"
  using assms by (auto simp: unpack_6I_def u32_value_nonneg split: if_splits)

lemma read_frame_try_closed:
  assumes "closed m"
  shows "fst (read_frame_try m) = Inl ValueError" "fst (read_frame_info_try m) = Inl ValueError"
  using assms by (simp_all add: read_frame_try_def read_frame_info_try_def mmap_seek_def)

lemma read_frame_try_short:
  assumes "\<not> closed m" "length (region m) < 24"
  shows "fst (read_frame_try m) = Inl StructError" "fst (read_frame_info_try m) = Inl StructError"
  using assms
  by (simp_all add: read_frame_try_def read_frame_info_try_def mmap_seek_def mmap_read_def
        unpack_6I_def HEADER_SIZE_def Let_def)

lemma read_frame_try_fields:
  assumes "\<not> closed m" "unpack_6I (take 24 (region m)) = Inr (w, h, c, sec, usec, n)"
  shows "fst (read_frame_try m)
         = (if w = 0 \<or> h = 0 \<or> n = 0 then Inr None
            else if int (length (take (nat n) (drop 24 (region m)))) \<noteq> h * w * c
            then Inl ValueError
            else Inr (Some (\<lparr>shape = [nat h, nat w, nat c],
                             pixels = take (nat n) (drop 24 (region m))\<rparr>,
                            timestamp_of sec usec)))"
proof -
  note nn = unpack_6I_nonneg [OF assms(2)]
  have l: "length (take 24 (region m)) = 24" using nn by simp
  have seek: "mmap_seek m 0 = Inr (m\<lparr>pos := 0\<rparr>)" using assms(1) by (simp add: mmap_seek_def)
  have rd: "mmap_read (m\<lparr>pos := 0\<rparr>) HEADER_SIZE = Inr (take 24 (region m), m\<lparr>pos := 24\<rparr>)"
    using assms(1) l by (simp add: mmap_read_def HEADER_SIZE_def Let_def)
  have rd2: "mmap_read (m\<lparr>pos := 24\<rparr>) (nat n)
             = Inr (take (nat n) (drop 24 (region m)),
                    m\<lparr>pos := 24 + length (take (nat n) (drop 24 (region m)))\<rparr>)"
    using assms(1) by (simp add: mmap_read_def Let_def)
  show ?thesis
    using seek rd rd2 assms(2) nn
    by (simp add: read_frame_try_def frombuffer_reshape_def)
qed

lemma read_frame_info_try_fields:
  assumes "\<not> closed m" "unpack_6I (take 24 (region m)) = Inr (w, h, c, sec, usec, n)"
  shows "fst (read_frame_info_try m)
         = (if w = 0 \<or> h = 0 then Inr None
            else Inr (Some \<lparr>info_width = w, info_height = h, info_channels = c,
                             info_timestamp = timestamp_of sec usec, info_frame_size = n\<rparr>))"
proof -
  note nn = unpack_6I_nonneg [OF assms(2)]
  have l: "length (take 24 (region m)) = 24" using nn by simp
  have seek: "mmap_seek m 0 = Inr (m\<lparr>pos := 0\<rparr>)" using assms(1) by (simp add: mmap_seek_def)
  have rd: "mmap_read (m\<lparr>pos := 0\<rparr>) HEADER_SIZE = Inr (take 24 (region m), m\<lparr>pos := 24\<rparr>)"
    using assms(1) l by (simp add: mmap_read_def HEADER_SIZE_def Let_def)
  show ?thesis
    using seek rd assms(2) by (simp add: read_frame_info_try_def)
qed

text \<open>
  C9. For every state of the object, \<open>read_frame\<close> and \<open>read_frame_info\<close> return a
  value and raise nothing, and every exception of the \<open>try\<close> body gives the no-frame
  result. State by state: without a map, with a closed map and with a map too short
  for a header, both return the no-frame result; with a header of six fields,
  \<open>read_frame\<close> returns the no-frame result when the width, the height or the frame
  size is zero and when the number of payload bytes read is not
  \<open>height * width * channels\<close>, and a frame of the payload bytes otherwise, while
  \<open>read_frame_info\<close> returns the no-frame result when the width or the height is zero
  and the header fields otherwise.
\<close>

theorem readers_total:
  "(\<exists>r s'. read_frame s = (Inr r, s')) \<and> (\<exists>r s'. read_frame_info s = (Inr r, s'))
   \<and> (\<forall>m e. mmap_file s = Some m \<and> fst (read_frame_try m) = Inl e
         \<longrightarrow> fst (read_frame s) = Inr None)
   \<and> (\<forall>m e. mmap_file s = Some m \<and> fst (read_frame_info_try m) = Inl e
         \<longrightarrow> fst (read_frame_info s) = Inr None)
   \<and> (mmap_file s = None \<longrightarrow> fst (read_frame s) = Inr None \<and> fst (read_frame_info s) = Inr None)
   \<and> (\<forall>m. mmap_file s = Some m \<and> (closed m \<or> length (region m) < 24)
         \<longrightarrow> fst (read_frame s) = Inr None \<and> fst (read_frame_info s) = Inr None)
   \<and> (\<forall>m w h c sec usec n.
         mmap_file s = Some m \<and> \<not> closed m
         \<and> unpack_6I (take 24 (region m)) = Inr (w, h, c, sec, usec, n)
         \<longrightarrow> fst (read_frame s)
               = (if w = 0 \<or> h = 0 \<or> n = 0
                     \<or> int (length (take (nat n) (drop 24 (region m)))) \<noteq> h * w * c
                  then Inr None
                  else Inr (Some (\<lparr>shape = [nat h, nat w, nat c],
                                   pixels = take (nat n) (drop 24 (region m))\<rparr>,
                                  timestamp_of sec usec)))
             \<and> fst (read_frame_info s)
               = (if w = 0 \<or> h = 0 then Inr None
                  else Inr (Some \<lparr>info_width = w, info_height = h, info_channels = c,
                                   info_timestamp = timestamp_of sec usec,
                                   info_frame_size = n\<rparr>)))"
proof -
  have t: "(\<exists>r s'. read_frame s = (Inr r, s')) \<and> (\<exists>r s'. read_frame_info s = (Inr r, s'))"
    by (simp add: read_frame_def read_frame_info_def split: option.splits prod.splits sum.splits)
  have n: "mmap_file s = None \<longrightarrow> fst (read_frame s) = Inr None \<and> fst (read_frame_info s) = Inr None"
    by (simp add: fst_read_frame fst_read_frame_info)
  have x: "(\<forall>m e. mmap_file s = Some m \<and> fst (read_frame_try m) = Inl e
              \<longrightarrow> fst (read_frame s) = Inr None)
           \<and> (\<forall>m e. mmap_file s = Some m \<and> fst (read_frame_info_try m) = Inl e
              \<longrightarrow> fst (read_frame_info s) = Inr None)"
    by (simp add: fst_read_frame fst_read_frame_info)
  have b: "fst (read_frame s) = Inr None \<and> fst (read_frame_info s) = Inr None"
    if "mmap_file s = Some m" "closed m \<or> length (region m) < 24" for m
  proof (cases "closed m")
    case True
    then show ?thesis
      using that(1) read_frame_try_closed [OF True]
      by (simp add: fst_read_frame fst_read_frame_info)
  next
    case False
    then have "length (region m) < 24" using that(2) by simp
    then show ?thesis
      using that(1) read_frame_try_short [OF False]
      by (simp add: fst_read_frame fst_read_frame_info)
  qed
  have f: "fst (read_frame s)
               = (if w = 0 \<or> h = 0 \<or> n = 0
                     \<or> int (length (take (nat n) (drop 24 (region m)))) \<noteq> h * w * c
                  then Inr None
                  else Inr (Some (\<lparr>shape = [nat h, nat w, nat c],
                                   pixels = take (nat n) (drop 24 (region m))\<rparr>,
                                  timestamp_of sec usec)))
             \<and> fst (read_frame_info s)
               = (if w = 0 \<or> h = 0 then Inr None
                  else Inr (Some \<lparr>info_width = w, info_height = h, info_channels = c,
                                   info_timestamp = timestamp_of sec usec,
                                   info_frame_size = n\<rparr>))"
    if "mmap_file s = Some m" "\<not> closed m"
      "unpack_6I (take 24 (region m)) = Inr (w, h, c, sec, usec, n)" for m w h c sec usec n
    using that(1) read_frame_try_fields [OF that(2,3)] read_frame_info_try_fields [OF that(2,3)]
    by (simp add: fst_read_frame fst_read_frame_info)
  show ?thesis using t n x b f by blast
qed


lemma jpeg_map_fields:
  "\<not> closed jpeg_map"
  "unpack_6I (take 24 (region jpeg_map)) = Inr (1, 1, 3, 0, 0, 4)"
  "take (nat 4) (drop 24 (region jpeg_map)) = [255, 216, 255, 217]"
proof -
  have p: "pack_6I 1 1 3 0 0 4
           = Inr (u32_bytes 1 @ u32_bytes 1 @ u32_bytes 3 @ u32_bytes 0 @ u32_bytes 0 @ u32_bytes 4)"
    by (rule pack_6I_ok) (simp_all add: in_u32_def)
  show "\<not> closed jpeg_map" by (simp add: jpeg_map_def)
  show "unpack_6I (take 24 (region jpeg_map)) = Inr (1, 1, 3, 0, 0, 4)"
    using unpack_pack_6I [OF p] by (simp add: jpeg_map_def)
  show "take (nat 4) (drop 24 (region jpeg_map)) = [255, 216, 255, 217]"
    by (simp add: jpeg_map_def)
qed

lemma raw_map_fields:
  "\<not> closed raw_map"
  "unpack_6I (take 24 (region raw_map)) = Inr (1, 1, 3, 0, 0, 3)"
  "take (nat 3) (drop 24 (region raw_map)) = [7, 8, 9]"
proof -
  have p: "pack_6I 1 1 3 0 0 3
           = Inr (u32_bytes 1 @ u32_bytes 1 @ u32_bytes 3 @ u32_bytes 0 @ u32_bytes 0 @ u32_bytes 3)"
    by (rule pack_6I_ok) (simp_all add: in_u32_def)
  show "\<not> closed raw_map" by (simp add: raw_map_def)
  show "unpack_6I (take 24 (region raw_map)) = Inr (1, 1, 3, 0, 0, 3)"
    using unpack_pack_6I [OF p] by (simp add: raw_map_def)
  show "take (nat 3) (drop 24 (region raw_map)) = [7, 8, 9]"
    by (simp add: raw_map_def)
qed

theorem readers_total_witness:
  "fst (read_frame (created_mailbox\<lparr>mmap_file := None\<rparr>)) = Inr None
   \<and> fst (read_frame_info (created_mailbox\<lparr>mmap_file := None\<rparr>)) = Inr None
   \<and> fst (read_frame (created_mailbox\<lparr>mmap_file := Some (created_map\<lparr>closed := True\<rparr>)\<rparr>)) = Inr None
   \<and> fst (read_frame_info (created_mailbox\<lparr>mmap_file := Some (created_map\<lparr>closed := True\<rparr>)\<rparr>))
       = Inr None
   \<and> length (region short_map) < 24
   \<and> fst (read_frame (created_mailbox\<lparr>mmap_file := Some short_map\<rparr>)) = Inr None
   \<and> fst (read_frame_info (created_mailbox\<lparr>mmap_file := Some short_map\<rparr>)) = Inr None
   \<and> unpack_6I (take 24 (region jpeg_map)) = Inr (1, 1, 3, 0, 0, 4)
   \<and> fst (read_frame (created_mailbox\<lparr>mmap_file := Some jpeg_map\<rparr>)) = Inr None
   \<and> fst (read_frame_info (created_mailbox\<lparr>mmap_file := Some jpeg_map\<rparr>))
       = Inr (Some \<lparr>info_width = 1, info_height = 1, info_channels = 3, info_timestamp = 0,
                    info_frame_size = 4\<rparr>)
   \<and> unpack_6I (take 24 (region raw_map)) = Inr (1, 1, 3, 0, 0, 3)
   \<and> fst (read_frame (created_mailbox\<lparr>mmap_file := Some raw_map\<rparr>))
       = Inr (Some (\<lparr>shape = [1, 1, 3], pixels = [7, 8, 9]\<rparr>, 0))"
proof -
  let ?none = "created_mailbox\<lparr>mmap_file := None\<rparr>"
  let ?closed = "created_mailbox\<lparr>mmap_file := Some (created_map\<lparr>closed := True\<rparr>)\<rparr>"
  let ?short = "created_mailbox\<lparr>mmap_file := Some short_map\<rparr>"
  let ?jpeg = "created_mailbox\<lparr>mmap_file := Some jpeg_map\<rparr>"
  let ?raw = "created_mailbox\<lparr>mmap_file := Some raw_map\<rparr>"
  have a: "fst (read_frame ?none) = Inr None \<and> fst (read_frame_info ?none) = Inr None"
    using readers_total [of ?none] by simp
  have b: "fst (read_frame ?closed) = Inr None \<and> fst (read_frame_info ?closed) = Inr None"
    using readers_total [of ?closed] by simp
  have sh: "length (region short_map) < 24" "\<not> closed short_map"
    by (simp_all add: short_map_def)
  have c: "fst (read_frame ?short) = Inr None \<and> fst (read_frame_info ?short) = Inr None"
    using readers_total [of ?short] sh by simp
  have d: "fst (read_frame ?jpeg) = Inr None
           \<and> fst (read_frame_info ?jpeg)
              = Inr (Some \<lparr>info_width = 1, info_height = 1, info_channels = 3,
                           info_timestamp = 0, info_frame_size = 4\<rparr>)"
    using readers_total [of ?jpeg] jpeg_map_fields by (simp add: timestamp_of_zero del: length_take)
  have e: "fst (read_frame ?raw) = Inr (Some (\<lparr>shape = [1, 1, 3], pixels = [7, 8, 9]\<rparr>, 0))"
    using readers_total [of ?raw] raw_map_fields by (simp add: timestamp_of_zero del: length_take)
  show ?thesis using a b sh(1) c d e jpeg_map_fields(2) raw_map_fields(2) by simp
qed


section \<open>A read-only consumer\<close>

lemma write_frame_try_read_only:
  assumes "access m = ACCESS_READ"
  shows "fst (write_frame_try imencode now m fr q) \<noteq> Inr True
         \<and> region (snd (write_frame_try imencode now m fr q)) = region m
         \<and> access (snd (write_frame_try imencode now m fr q)) = ACCESS_READ"
  using assms
  by (auto simp: write_frame_try_def mmap_seek_def mmap_write_def Let_def
           split: sum.splits option.splits prod.splits if_splits)

lemma write_frame_read_only:
  assumes "mmap_file s = Some m" "access m = ACCESS_READ"
  shows "fst (write_frame imencode now s fr q) = Inr False
         \<and> (\<exists>m'. mmap_file (snd (write_frame imencode now s fr q)) = Some m'
               \<and> region m' = region m \<and> access m' = ACCESS_READ)"
  using assms(1) write_frame_try_read_only [OF assms(2), of imencode now fr q]
  by (auto simp: write_frame_def split: prod.splits sum.splits)

lemma read_frame_try_bytes:
  "region (snd (read_frame_try m)) = region m \<and> access (snd (read_frame_try m)) = access m"
  by (auto simp: read_frame_try_def mmap_seek_def mmap_read_def Let_def
           split: sum.splits prod.splits if_splits)

lemma read_frame_info_try_bytes:
  "region (snd (read_frame_info_try m)) = region m
   \<and> access (snd (read_frame_info_try m)) = access m"
  by (auto simp: read_frame_info_try_def mmap_seek_def mmap_read_def Let_def
           split: sum.splits prod.splits if_splits)

lemma read_frame_bytes:
  assumes "mmap_file s = Some m"
  shows "\<exists>m'. mmap_file (snd (read_frame s)) = Some m' \<and> region m' = region m
           \<and> access m' = access m"
  using assms read_frame_try_bytes [of m]
  by (auto simp: read_frame_def split: prod.splits sum.splits)

lemma read_frame_info_bytes:
  assumes "mmap_file s = Some m"
  shows "\<exists>m'. mmap_file (snd (read_frame_info s)) = Some m' \<and> region m' = region m
           \<and> access m' = access m"
  using assms read_frame_info_try_bytes [of m]
  by (auto simp: read_frame_info_def split: prod.splits sum.splits)

lemma close_bytes:
  assumes "mmap_file s = Some m"
  shows "\<exists>m'. mmap_file (close s) = Some m' \<and> region m' = region m \<and> access m' = access m"
  using assms
  by (auto simp: close_def close_map_def mmap_bool_def split: sum.splits option.splits if_splits)

lemma api_call_read_only:
  assumes "mmap_file s = Some m" "access m = ACCESS_READ"
  shows "\<exists>m'. mmap_file (api_call_state imencode s call) = Some m' \<and> region m' = region m
           \<and> access m' = ACCESS_READ"
proof (cases call)
  case ReadFrame
  then show ?thesis using read_frame_bytes [OF assms(1)] assms(2) by auto
next
  case ReadFrameInfo
  then show ?thesis using read_frame_info_bytes [OF assms(1)] assms(2) by auto
next
  case (WriteFrame now fr q)
  then show ?thesis using write_frame_read_only [OF assms, of imencode now fr q] by auto
next
  case IsPreviewEnabled
  then show ?thesis using assms by simp
next
  case Close
  then show ?thesis using close_bytes [OF assms(1)] assms(2) by auto
qed

lemma api_calls_read_only:
  assumes "mmap_file s = Some m" "access m = ACCESS_READ"
  shows "\<exists>m'. mmap_file (api_calls imencode s calls) = Some m' \<and> region m' = region m
           \<and> access m' = ACCESS_READ"
  using assms
proof (induction calls arbitrary: s m)
  case Nil
  then show ?case by (simp add: api_calls_def)
next
  case (Cons call calls)
  obtain m1 where m1: "mmap_file (api_call_state imencode s call) = Some m1"
    "region m1 = region m" "access m1 = ACCESS_READ"
    using api_call_read_only [OF Cons.prems] by blast
  have "api_calls imencode s (call # calls) = api_calls imencode (api_call_state imencode s call) calls"
    by (simp add: api_calls_def)
  then show ?case using Cons.IH [OF m1(1,3)] m1(2) by simp
qed

lemma open_buffer_result:
  assumes "open_buffer s fs = Inr (s', fs')"
  shows "\<exists>bs. files fs (file_path s) = Some bs \<and> TOTAL_SIZE \<le> length bs \<and> fs' = fs
           \<and> writable fs (file_path s)
           \<and> s' = s\<lparr>mmap_file := Some \<lparr>region = take TOTAL_SIZE bs, pos = 0,
                                         access = ACCESS_READ, closed = False\<rparr>\<rparr>"
  using assms
  by (auto simp: open_buffer_def open_rw_def mmap_new_def split: option.splits if_splits sum.splits)

text \<open>
  Where the data file has been opened and the flag path is the data path, the flag file
  opens too; so a failure to open it means that it is another file.
\<close>

lemma flag_open_fails_separate:
  assumes "open_buffer s fs = Inr (s', fs')" "open_flag_file_try s' fs' = Inl e"
  shows "flag_path s' \<noteq> file_path s'"
proof
  assume eq: "flag_path s' = file_path s'"
  obtain bs where r: "files fs (file_path s) = Some bs" "TOTAL_SIZE \<le> length bs" "fs' = fs"
    "writable fs (file_path s)" "file_path s' = file_path s"
    using open_buffer_result [OF assms(1)] by auto
  have "4 \<le> length bs" using r(2) by (simp add: TOTAL_SIZE_eq)
  then have "\<exists>fm. open_flag_file_try s' fs' = Inr fm"
    using r eq by (simp add: open_flag_file_try_def open_rw_def mmap_new_def)
  then show False using assms(2) by auto
qed

lemma open_flag_file_mmap_file:
  assumes "open_buffer s0 fs0 = Inr (s, fs)" "open_flag_file s fs = Inr (s', fs')"
  shows "mmap_file s' = mmap_file s"
proof (cases "open_flag_file_try s fs")
  case (Inr fm)
  then show ?thesis using assms(2) by (auto simp: open_flag_file_def)
next
  case (Inl e)
  then have "create_flag_file s fs = Inr (s', fs')"
    using assms(2) by (simp add: open_flag_file_def)
  then have "s' = flag_created s" by (rule create_flag_file_result(1))
  then show ?thesis
    using flag_created_separate [OF flag_open_fails_separate [OF assms(1) Inl]] by simp
qed

lemma init_open_result:
  assumes "SharedFrameBuffer_init fs path False = Inr (s, fs')"
  shows "\<exists>bs. files fs path = Some bs \<and> TOTAL_SIZE \<le> length bs
           \<and> mmap_file s = Some \<lparr>region = take TOTAL_SIZE bs, pos = 0,
                                   access = ACCESS_READ, closed = False\<rparr>"
proof -
  obtain s1 fs1 where a: "open_buffer (new_object path) fs = Inr (s1, fs1)"
    and b: "open_flag_file s1 fs1 = Inr (s, fs')"
    using assms by (auto simp: SharedFrameBuffer_init_def split: sum.splits)
  show ?thesis
    using open_buffer_result [OF a] open_flag_file_mmap_file [OF a b]
    by (auto simp: new_object_def)
qed

text \<open>
  C10. The object the constructor returns for \<open>create=False\<close> holds a map with
  \<open>ACCESS_READ\<close>. \<open>write_frame\<close> on it returns False and leaves it as it is, for
  every encoder, clock reading, frame and quality; and after any sequence of calls of the
  object's methods, \<open>write_frame\<close> still returns False and the bytes of the region are
  those the map had when it was opened.
\<close>

theorem consumer_cannot_write:
  assumes "SharedFrameBuffer_init fs path False = Inr (s, fs')"
  shows "\<exists>m. mmap_file s = Some m \<and> access m = ACCESS_READ
           \<and> write_frame imencode now s fr q = (Inr False, s)
           \<and> (\<forall>calls now' fr' q'.
                 fst (write_frame imencode now' (api_calls imencode s calls) fr' q') = Inr False
                 \<and> (\<exists>m'. mmap_file (snd (write_frame imencode now' (api_calls imencode s calls) fr' q'))
                            = Some m' \<and> region m' = region m))"
proof -
  obtain bs where m: "mmap_file s = Some \<lparr>region = take TOTAL_SIZE bs, pos = 0,
                                   access = ACCESS_READ, closed = False\<rparr>"
    using init_open_result [OF assms] by blast
  let ?m = "\<lparr>region = take TOTAL_SIZE bs, pos = 0, access = ACCESS_READ, closed = False\<rparr>"
  have acc: "access ?m = ACCESS_READ" by simp
  have later: "fst (write_frame imencode now' (api_calls imencode s calls) fr' q') = Inr False
        \<and> (\<exists>m'. mmap_file (snd (write_frame imencode now' (api_calls imencode s calls) fr' q'))
                            = Some m' \<and> region m' = region ?m)" for calls now' fr' q'
  proof -
    obtain m1 where m1: "mmap_file (api_calls imencode s calls) = Some m1"
      "region m1 = region ?m" "access m1 = ACCESS_READ"
      using api_calls_read_only [OF m acc] by blast
    show ?thesis using write_frame_read_only [OF m1(1,3), of imencode now' fr' q'] m1(2) by auto
  qed
  have "fst (write_frame_try imencode now ?m fr q) \<noteq> Inr True
        \<and> snd (write_frame_try imencode now ?m fr q) = ?m"
    by (auto simp: write_frame_try_def mmap_seek_def mmap_write_def Let_def
           split: sum.splits option.splits prod.splits if_splits)
  then have first: "write_frame imencode now s fr q = (Inr False, s)"
    using m by (auto simp: write_frame_def split: prod.splits sum.splits)
  show ?thesis using m acc first later by blast
qed


lemma open_buffer_example:
  "open_buffer (new_object ''/tmp/frame.mmap'') fs_data_only
   = Inr ((new_object ''/tmp/frame.mmap'')\<lparr>mmap_file := Some opened_map\<rparr>, fs_data_only)"
  "open_buffer (new_object ''/tmp/frame.mmap'') created_fs
   = Inr ((new_object ''/tmp/frame.mmap'')\<lparr>mmap_file := Some opened_map\<rparr>, created_fs)"
  by (simp_all add: open_buffer_def open_rw_def mmap_new_def new_object_def fs_data_only_def
        created_fs_def fs_empty_def opened_map_def)

lemma init_open_example:
  "SharedFrameBuffer_init created_fs ''/tmp/frame.mmap'' False = Inr (opened_mailbox, created_fs)"
proof -
  have "open_flag_file ((new_object ''/tmp/frame.mmap'')\<lparr>mmap_file := Some opened_map\<rparr>) created_fs
        = Inr (opened_mailbox, created_fs)"
    by (simp add: open_flag_file_def open_flag_file_try_def open_rw_def mmap_new_def new_object_def
        flag_path_example created_fs_def fs_empty_def opened_mailbox_def created_flag_map_def)
  then show ?thesis
    by (simp add: SharedFrameBuffer_init_def open_buffer_example(2))
qed

theorem consumer_cannot_write_witness:
  "SharedFrameBuffer_init created_fs ''/tmp/frame.mmap'' False = Inr (opened_mailbox, created_fs)
   \<and> write_frame marker_encoder 1700000000 opened_mailbox pixel_frame 70 = (Inr False, opened_mailbox)
   \<and> fst (write_frame marker_encoder 1700000001
             (api_calls marker_encoder opened_mailbox [ReadFrame, WriteFrame 1700000000 pixel_frame 70])
             pixel_frame 70) = Inr False"
  using init_open_example
    consumer_cannot_write [OF init_open_example, of marker_encoder 1700000000 pixel_frame 70]
  by blast


section \<open>Opening without a flag file\<close>

text \<open>
  C7, as the code has it. With \<open>create=False\<close> and a data file that opens: a missing flag
  file makes the attempt to open it fail; whenever that attempt fails, the constructor
  goes on to \<open>_create_flag_file\<close>. Where the flag path can be written, it succeeds with
  a new flag file holding 1, so that the preview is enabled; where it cannot, the
  exception of \<open>_create_flag_file\<close> is raised again and the constructor fails.
\<close>

theorem missing_flag_file_falls_back:
  assumes "open_buffer (new_object path) fs = Inr (s1, fs1)"
  shows "(files fs (flag_path_for path) = None \<longrightarrow> (\<exists>e. open_flag_file_try s1 fs1 = Inl e))
   \<and> ((\<exists>e. open_flag_file_try s1 fs1 = Inl e) \<longrightarrow>
        (writable fs (flag_path_for path) \<longrightarrow>
             SharedFrameBuffer_init fs path False
               = Inr (s1\<lparr>flag_mmap := Some created_flag_map\<rparr>,
                      fs\<lparr>files := (files fs)(flag_path_for path \<mapsto> [1, 0, 0, 0])\<rparr>)
             \<and> is_preview_enabled (s1\<lparr>flag_mmap := Some created_flag_map\<rparr>) = Inr True)
        \<and> (\<not> writable fs (flag_path_for path) \<longrightarrow>
             SharedFrameBuffer_init fs path False = Inl OSError))"
proof -
  obtain bs where r: "fs1 = fs"
    "s1 = (new_object path)\<lparr>mmap_file := Some \<lparr>region = take TOTAL_SIZE bs, pos = 0,
                                         access = ACCESS_READ, closed = False\<rparr>\<rparr>"
    using open_buffer_result [OF assms] by blast
  have fp: "flag_path s1 = flag_path_for path" unfolding r by (simp add: new_object_def)
  have a: "\<exists>e. open_flag_file_try s1 fs1 = Inl e" if "files fs (flag_path_for path) = None"
    using that fp r(1) by (simp add: open_flag_file_try_def open_rw_def)
  have b: "SharedFrameBuffer_init fs path False = create_flag_file s1 fs1"
    if "open_flag_file_try s1 fs1 = Inl e" for e
    using that assms by (simp add: SharedFrameBuffer_init_def open_flag_file_def)
  have sep: "flag_created s1 = s1\<lparr>flag_mmap := Some created_flag_map\<rparr>"
    if "open_flag_file_try s1 fs1 = Inl e" for e
    using flag_created_separate [OF flag_open_fails_separate [OF assms that]] .
  have c: "create_flag_file s1 fs1
           = Inr (flag_created s1,
                  fs\<lparr>files := (files fs)(flag_path_for path \<mapsto> [1, 0, 0, 0])\<rparr>)"
    if "writable fs (flag_path_for path)"
    using create_flag_file_ok [of fs1 s1] that fp r(1) by simp
  have c': "create_flag_file s1 fs1 = Inl OSError" if "\<not> writable fs (flag_path_for path)"
    using create_flag_file_denied [of fs1 s1] that fp r(1) by simp
  have d: "is_preview_enabled (s1\<lparr>flag_mmap := Some created_flag_map\<rparr>) = Inr True"
    by (simp add: fst_is_preview created_flag_map_def u32_value_one)
  show ?thesis using a b c c' d sep by auto
qed

theorem missing_flag_file_falls_back_witness:
  "open_buffer (new_object ''/tmp/frame.mmap'') fs_data_only
     = Inr ((new_object ''/tmp/frame.mmap'')\<lparr>mmap_file := Some opened_map\<rparr>, fs_data_only)
   \<and> files fs_data_only (flag_path_for ''/tmp/frame.mmap'') = None
   \<and> writable fs_data_only (flag_path_for ''/tmp/frame.mmap'')
   \<and> open_flag_file_try ((new_object ''/tmp/frame.mmap'')\<lparr>mmap_file := Some opened_map\<rparr>) fs_data_only
       = Inl FileNotFoundError
   \<and> SharedFrameBuffer_init fs_data_only ''/tmp/frame.mmap'' False = Inr (opened_mailbox, created_fs)
   \<and> is_preview_enabled opened_mailbox = Inr True"
proof -
  have f: "files fs_data_only (flag_path_for ''/tmp/frame.mmap'') = None"
    by (simp add: fs_data_only_def fs_empty_def flag_path_example)
  have w: "writable fs_data_only (flag_path_for ''/tmp/frame.mmap'')"
    by (simp add: fs_data_only_def fs_empty_def)
  have t: "open_flag_file_try ((new_object ''/tmp/frame.mmap'')\<lparr>mmap_file := Some opened_map\<rparr>)
             fs_data_only = Inl FileNotFoundError"
    by (simp add: open_flag_file_try_def open_rw_def new_object_def flag_path_example
        fs_data_only_def fs_empty_def)
  have s: "(new_object ''/tmp/frame.mmap'')\<lparr>mmap_file := Some opened_map,
              flag_mmap := Some created_flag_map\<rparr> = opened_mailbox"
    by (simp add: new_object_def opened_mailbox_def flag_path_example)
  have fs: "fs_data_only\<lparr>files := (files fs_data_only)(flag_path_for ''/tmp/frame.mmap'' \<mapsto> [1, 0, 0, 0])\<rparr>
            = created_fs"
    by (simp add: fs_data_only_def created_fs_def flag_path_example)
  note th = missing_flag_file_falls_back [OF open_buffer_example(1)]
  have "SharedFrameBuffer_init fs_data_only ''/tmp/frame.mmap'' False = Inr (opened_mailbox, created_fs)
        \<and> is_preview_enabled opened_mailbox = Inr True"
    using th t w s fs by auto
  then show ?thesis using open_buffer_example(1) f w t by simp
qed

text \<open>
  C7 as stated, that the open does not fail, does not hold where the flag file can be
  neither opened nor created: the data file opens, the flag file is missing, and the
  constructor raises.
\<close>

theorem missing_flag_file_open_fails:
  "open_buffer (new_object ''/tmp/frame.mmap'') fs_flag_denied
     = Inr ((new_object ''/tmp/frame.mmap'')\<lparr>mmap_file := Some opened_map\<rparr>, fs_flag_denied)
   \<and> open_flag_file_try ((new_object ''/tmp/frame.mmap'')\<lparr>mmap_file := Some opened_map\<rparr>)
        fs_flag_denied = Inl FileNotFoundError
   \<and> SharedFrameBuffer_init fs_flag_denied ''/tmp/frame.mmap'' False = Inl OSError"
proof -
  let ?s1 = "(new_object ''/tmp/frame.mmap'')\<lparr>mmap_file := Some opened_map\<rparr>"
  have o: "open_buffer (new_object ''/tmp/frame.mmap'') fs_flag_denied = Inr (?s1, fs_flag_denied)"
    by (simp add: open_buffer_def open_rw_def mmap_new_def new_object_def fs_flag_denied_def
        fs_data_only_def fs_empty_def opened_map_def)
  have t: "open_flag_file_try ?s1 fs_flag_denied = Inl FileNotFoundError"
    by (simp add: open_flag_file_try_def open_rw_def new_object_def flag_path_example
        fs_flag_denied_def fs_data_only_def fs_empty_def)
  have n: "\<not> writable fs_flag_denied (flag_path ?s1)"
    by (simp add: new_object_def flag_path_example fs_flag_denied_def)
  have "SharedFrameBuffer_init fs_flag_denied ''/tmp/frame.mmap'' False
        = create_flag_file ?s1 fs_flag_denied"
    using o t by (simp add: SharedFrameBuffer_init_def open_flag_file_def)
  then have "SharedFrameBuffer_init fs_flag_denied ''/tmp/frame.mmap'' False = Inl OSError"
    using create_flag_file_denied [OF n] by simp
  then show ?thesis using o t by simp
qed


section \<open>The path of the flag file\<close>

lemma no_overlap:
  assumes "take (length ''.mmap'') (s @ ''.mmap'') = ''.mmap''" "s \<noteq> []"
  shows "take (length ''.mmap'') s = ''.mmap''"
proof -
  obtain c1 s1 where s: "s = c1 # s1" using assms(2) by (cases s) auto
  show ?thesis
  proof (cases s1)
    case Nil
    then show ?thesis using assms(1) s by simp
  next
    case (Cons c2 s2)
    note c2 = this
    show ?thesis
    proof (cases s2)
      case Nil
      then show ?thesis using assms(1) s c2 by simp
    next
      case (Cons c3 s3)
      note c3 = this
      show ?thesis
      proof (cases s3)
        case Nil
        then show ?thesis using assms(1) s c2 c3 by simp
      next
        case (Cons c4 s4)
        note c4 = this
        show ?thesis
        proof (cases s4)
          case Nil
          then show ?thesis using assms(1) s c2 c3 c4 by simp
        next
          case (Cons c5 s5)
          then show ?thesis using assms(1) s c2 c3 c4 by simp
        qed
      qed
    qed
  qed
qed

lemma replace_extension:
  assumes "\<not> occurs ''.mmap'' stem"
  shows "replace_from ''.mmap'' new (stem @ ''.mmap'') = stem @ new"
  using assms
proof (induction stem)
  case Nil
  then show ?case by simp
next
  case (Cons c cs)
  define old where "old = ''.mmap''"
  have n: "take (length old) (c # cs) \<noteq> old" and r: "\<not> occurs old cs"
    using Cons.prems unfolding old_def occurs.simps by blast+
  have ne: "take (length old) (c # (cs @ old)) \<noteq> old"
    using no_overlap [of "c # cs"] n unfolding old_def by auto
  have "replace_from old new (c # (cs @ old)) = c # replace_from old new (cs @ old)"
    using ne by (simp only: replace_from.simps if_False simp_thms)
  then show ?case using Cons.IH r unfolding old_def by simp
qed

lemma dirname_suffix:
  assumes "CHR ''/'' \<notin> set suf"
  shows "dirname (stem @ suf) = dirname stem"
proof -
  have "dropWhile (\<lambda>c. c \<noteq> CHR ''/'') (rev suf @ rev stem)
        = dropWhile (\<lambda>c. c \<noteq> CHR ''/'') (rev stem)"
    using assms by (intro dropWhile_append2) auto
  then show ?thesis by (simp add: dirname_def)
qed

text \<open>
  Where the data path ends in \<open>.mmap\<close> and holds \<open>.mmap\<close> nowhere else, the flag path
  is the data path with that extension replaced by \<open>_flag.mmap\<close>; it differs from the
  data path and lies in the same directory.
\<close>

lemma flag_path_extension:
  assumes "\<not> occurs ''.mmap'' stem"
  shows "flag_path_for (stem @ ''.mmap'') = stem @ ''_flag.mmap''
         \<and> flag_path_for (stem @ ''.mmap'') \<noteq> stem @ ''.mmap''
         \<and> dirname (flag_path_for (stem @ ''.mmap'')) = dirname (stem @ ''.mmap'')"
proof -
  have a: "flag_path_for (stem @ ''.mmap'') = stem @ ''_flag.mmap''"
    using replace_extension [OF assms] by (simp add: flag_path_for_def str_replace_def)
  have b: "dirname (stem @ ''_flag.mmap'') = dirname stem" "dirname (stem @ ''.mmap'') = dirname stem"
    by (rule dirname_suffix, simp)+
  show ?thesis using a b by simp
qed

lemma flag_path_extension_example:
  "\<not> occurs ''.mmap'' ''/tmp/frame''
   \<and> flag_path_for ''/tmp/frame.mmap'' = ''/tmp/frame_flag.mmap''
   \<and> flag_path_for ''/tmp/frame.mmap'' \<noteq> ''/tmp/frame.mmap''
   \<and> dirname (flag_path_for ''/tmp/frame.mmap'') = dirname ''/tmp/frame.mmap''"
proof -
  have h: "\<not> occurs ''.mmap'' ''/tmp/frame''" by simp
  show ?thesis using h flag_path_extension [OF h] by (simp add: dirname_def)
qed

lemma srv_paths:
  "flag_path_for ''/srv/cam.mmap/frame.mmap'' = ''/srv/cam_flag.mmap/frame_flag.mmap''"
  "dirname ''/srv/cam.mmap/frame.mmap'' = ''/srv/cam.mmap''"
  "dirname ''/srv/cam_flag.mmap/frame_flag.mmap'' = ''/srv/cam_flag.mmap''"
  by (simp_all add: flag_path_for_def str_replace_def dirname_def)

text \<open>
  C6. The flag path is not always a sibling file distinct from the data file. The data
  path \<open>/tmp/frame.bin\<close> holds no \<open>.mmap\<close>, and the object's flag path is its data
  path. In \<open>/srv/cam.mmap/frame.mmap\<close> the directory name is replaced as well: the flag
  path lies in another directory, and where only the directory of the data file is
  there to be written to, the constructor raises.
\<close>

theorem flag_path_not_separate:
  "flag_path_for ''/tmp/frame.bin'' = ''/tmp/frame.bin''
   \<and> flag_path (new_object ''/tmp/frame.bin'') = file_path (new_object ''/tmp/frame.bin'')
   \<and> flag_path_for ''/srv/cam.mmap/frame.mmap'' = ''/srv/cam_flag.mmap/frame_flag.mmap''
   \<and> dirname (flag_path_for ''/srv/cam.mmap/frame.mmap'') \<noteq> dirname ''/srv/cam.mmap/frame.mmap''
   \<and> SharedFrameBuffer_init fs_srv ''/srv/cam.mmap/frame.mmap'' True = Inl OSError"
proof -
  let ?p = "''/srv/cam.mmap/frame.mmap''"
  have d: "dirname ?p \<noteq> []" "makedirs_ok fs_srv (dirname ?p)" "writable fs_srv ?p"
    by (simp_all add: srv_paths fs_srv_def)
  let ?s1 = "(new_object ?p)\<lparr>mmap_file := Some created_map\<rparr>"
  let ?fs1 = "fs_srv\<lparr>files := (files fs_srv)(?p \<mapsto> replicate TOTAL_SIZE 0)\<rparr>"
  have n: "\<not> writable ?fs1 (flag_path ?s1)"
    by (simp add: new_object_def srv_paths fs_srv_def)
  have "SharedFrameBuffer_init fs_srv ?p True = create_flag_file ?s1 ?fs1"
    using create_buffer_ok [OF d] by (simp add: SharedFrameBuffer_init_def)
  then have i: "SharedFrameBuffer_init fs_srv ?p True = Inl OSError"
    using create_flag_file_denied [OF n] by simp
  have b: "flag_path (new_object ''/tmp/frame.bin'') = file_path (new_object ''/tmp/frame.bin'')"
    by (simp add: new_object_def flag_path_bin)
  show ?thesis using i b flag_path_bin by (simp add: srv_paths)
qed


section \<open>CameraCapture: the latest frame\<close>

subsection \<open>No frame before the first grab\<close>

lemma list_all_update:
  "list_all P xs \<Longrightarrow> P x \<Longrightarrow> list_all P (xs[i := x])"
  by (metis insert_iff list_all_iff set_update_subset_insert subsetD)

lemma worker_step_idle:
  assumes "idle c"
  shows "idle (worker_step i None c)"
proof (cases "i < length (workers c)")
  case False
  then show ?thesis using assms by (simp add: worker_step_def)
next
  case True
  let ?w = "workers c ! i"
  have w: "wpc ?w \<noteq> SetGrabbed"
    using assms True by (simp add: idle_def list_all_length)
  obtain w' c' where st: "worker_statement None c ?w = (w', c')" by fastforce
  have "wpc w' \<noteq> SetGrabbed \<and> \<not> grabbed c' \<and> workers c' = workers c"
    using st w assms
    by (cases "wpc ?w") (auto simp: worker_statement_def device_read_def idle_def split: if_splits)
  then show ?thesis
    using assms True st by (simp add: worker_step_def idle_def list_all_update)
qed

lemma worker_steps_idle:
  assumes "idle c" "list_all (\<lambda>(i, r). r = None) xs"
  shows "idle (worker_steps xs c)"
  using assms
proof (induction xs arbitrary: c)
  case Nil
  then show ?case by simp
next
  case (Cons x xs)
  obtain i r where x: "x = (i, r)" by (cases x)
  then have "r = None" using Cons.prems(2) by simp
  then show ?case using Cons x worker_step_idle by simp
qed

lemma event_idle:
  assumes "idle c" "no_grab ev"
  shows "idle (cam_event_state c ev)"
proof (cases ev)
  case (Start opens first)
  then show ?thesis using assms by (simp add: start_def device_read_def idle_def Let_def)
next
  case (Worker i r)
  then show ?thesis using assms worker_step_idle by simp
next
  case ReadLatest
  then show ?thesis using assms by (simp add: cam_read_frame_def idle_def)
next
  case (Stop during)
  have "idle (worker_steps during (c\<lparr>stop_thread := True\<rparr>))"
    using assms Stop by (intro worker_steps_idle) (simp_all add: idle_def)
  then show ?thesis using Stop
    by (simp add: stop_def Let_def idle_def split: option.splits)
qed

lemma events_idle:
  assumes "idle c" "list_all no_grab evs"
  shows "idle (cam_events c evs)"
  using assms
proof (induction evs arbitrary: c)
  case Nil
  then show ?case by (simp add: cam_events_def)
next
  case (Cons ev evs)
  have "idle (cam_event_state c ev)" using Cons.prems event_idle by simp
  then have "idle (cam_events (cam_event_state c ev) evs)" using Cons by simp
  then show ?case by (simp add: cam_events_def)
qed

subsection \<open>Nothing after stop\<close>

lemma worker_step_is_opened: "is_opened (worker_step i r c) = is_opened c"
proof (cases "i < length (workers c)")
  case False
  then show ?thesis by (simp add: worker_step_def)
next
  case True
  obtain w' c' where st: "worker_statement r c (workers c ! i) = (w', c')" by fastforce
  then have "is_opened c' = is_opened c"
    by (cases "wpc (workers c ! i)")
       (auto simp: worker_statement_def device_read_def split: if_splits option.splits)
  then show ?thesis using True st by (simp add: worker_step_def)
qed

lemma stop_closed: "\<not> is_opened (stop during c)"
  by (simp add: stop_def Let_def split: option.splits)

lemma event_closed:
  assumes "\<not> is_opened c" "no_start ev"
  shows "\<not> is_opened (cam_event_state c ev)"
  using assms
  by (cases ev) (simp_all add: worker_step_is_opened cam_read_frame_def stop_closed)

lemma events_closed:
  assumes "\<not> is_opened c" "list_all no_start evs"
  shows "\<not> is_opened (cam_events c evs)"
  using assms
proof (induction evs arbitrary: c)
  case Nil
  then show ?case by (simp add: cam_events_def)
next
  case (Cons ev evs)
  have "\<not> is_opened (cam_event_state c ev)" using Cons.prems event_closed by simp
  then have "\<not> is_opened (cam_events (cam_event_state c ev) evs)" using Cons by simp
  then show ?case by (simp add: cam_events_def)
qed


subsection \<open>The heap only grows\<close>

lemma grows_refl: "grows c c"
  by (simp add: grows_def)

lemma grows_trans:
  assumes "grows a b" "grows b c"
  shows "grows a c"
proof -
  obtain e1 e2 where e: "heap b = heap a @ e1" "heap c = heap b @ e2"
    using assms by (auto simp: grows_def)
  have ab: "stored_refs b \<subseteq> stored_refs a \<union> {length (heap a) ..< length (heap b)}"
    and bc: "stored_refs c \<subseteq> stored_refs b \<union> {length (heap b) ..< length (heap c)}"
    using assms by (simp_all add: grows_def)
  have la: "length (heap a) \<le> length (heap b)" and lb: "length (heap b) \<le> length (heap c)"
    using e by simp_all
  have "x \<in> stored_refs a \<union> {length (heap a) ..< length (heap c)}" if "x \<in> stored_refs c" for x
  proof (cases "x \<in> stored_refs b")
    case True
    then have "x \<in> stored_refs a \<or> (length (heap a) \<le> x \<and> x < length (heap b))"
      using ab by auto
    then show ?thesis using lb by auto
  next
    case False
    then have "length (heap b) \<le> x \<and> x < length (heap c)"
      using bc that by auto
    then show ?thesis using la by auto
  qed
  then have "stored_refs c \<subseteq> stored_refs a \<union> {length (heap a) ..< length (heap c)}"
    by blast
  then show ?thesis using e by (simp add: grows_def)
qed

lemma stored_refs_update:
  assumes "i < length ws"
  shows "(\<Union>w \<in> set (ws[i := w']). set_option (w_frame w))
         \<subseteq> set_option (w_frame w') \<union> (\<Union>w \<in> set ws. set_option (w_frame w))"
  using set_update_subset_insert [of ws i w'] by auto

lemma worker_step_grows: "grows c (worker_step i r c)"
proof (cases "i < length (workers c)")
  case False
  then show ?thesis by (simp add: worker_step_def grows_refl)
next
  case True
  let ?w = "workers c ! i"
  have mem: "?w \<in> set (workers c)" using True by simp
  obtain w' c' where st: "worker_statement r c ?w = (w', c')" by fastforce
  have res: "worker_step i r c = c'\<lparr>workers := (workers c)[i := w']\<rparr> \<and> workers c' = workers c"
    using True st
    by (cases "wpc ?w")
       (auto simp: worker_step_def worker_statement_def device_read_def
             split: if_splits option.splits)
  have h: "\<exists>ext. heap c' = heap c @ ext"
    using st
    by (cases "wpc ?w")
       (auto simp: worker_statement_def device_read_def split: if_splits option.splits)
  have f: "set_option (frame c') \<subseteq> stored_refs c"
    using st mem
    by (cases "wpc ?w")
       (auto simp: worker_statement_def device_read_def stored_refs_def
             split: if_splits option.splits)
  have wf: "set_option (w_frame w') \<subseteq> stored_refs c \<union> {length (heap c) ..< length (heap c')}"
    using st mem
    by (cases "wpc ?w")
       (auto simp: worker_statement_def device_read_def stored_refs_def
             split: if_splits option.splits)
  have ws: "(\<Union>w \<in> set ((workers c)[i := w']). set_option (w_frame w))
            \<subseteq> set_option (w_frame w') \<union> stored_refs c"
    using stored_refs_update [OF True, of w'] by (auto simp: stored_refs_def)
  have "stored_refs (c'\<lparr>workers := (workers c)[i := w']\<rparr>)
        \<subseteq> stored_refs c \<union> {length (heap c) ..< length (heap c')}"
    using f wf ws by (auto simp: stored_refs_def)
  then show ?thesis using res h by (simp add: grows_def)
qed

lemma worker_steps_grows: "grows c (worker_steps xs c)"
proof (induction xs arbitrary: c)
  case Nil
  then show ?case by (simp add: grows_refl)
next
  case (Cons x xs)
  obtain i r where x: "x = (i, r)" by (cases x)
  show ?case
    using grows_trans [OF worker_step_grows [of c i r] Cons.IH [of "worker_step i r c"]] x
    by simp
qed

lemma start_grows: "grows c (snd (start opens first c))"
  by (cases first) (auto simp: start_def device_read_def grows_def stored_refs_def Let_def)

lemma read_grows: "grows c (snd (cam_read_frame c))"
  by (auto simp: cam_read_frame_def grows_def stored_refs_def split: option.splits)

lemma stop_grows: "grows c (stop during c)"
proof -
  have a: "grows c (c\<lparr>stop_thread := True\<rparr>)"
    by (simp add: grows_def stored_refs_def)
  have b: "grows (c\<lparr>stop_thread := True\<rparr>) (worker_steps during (c\<lparr>stop_thread := True\<rparr>))"
    by (rule worker_steps_grows)
  have c: "grows (worker_steps during (c\<lparr>stop_thread := True\<rparr>)) (stop during c)"
    by (simp add: stop_def Let_def grows_def stored_refs_def split: option.splits)
  show ?thesis using grows_trans [OF grows_trans [OF a b] c] .
qed

lemma event_grows: "grows c (cam_event_state c ev)"
  by (cases ev) (simp_all add: start_grows worker_step_grows read_grows stop_grows)

lemma events_grows: "grows c (cam_events c evs)"
proof (induction evs arbitrary: c)
  case Nil
  then show ?case by (simp add: cam_events_def grows_refl)
next
  case (Cons ev evs)
  have "grows (cam_event_state c ev) (cam_events (cam_event_state c ev) evs)"
    by (rule Cons.IH)
  then have "grows c (cam_events (cam_event_state c ev) evs)"
    using grows_trans [OF event_grows] by blast
  then show ?case by (simp add: cam_events_def)
qed

lemma reachable_refs:
  assumes "a \<in> stored_refs (cam_events CameraCapture_init evs)"
  shows "a < length (heap (cam_events CameraCapture_init evs))"
proof -
  have "stored_refs CameraCapture_init = {}" "heap CameraCapture_init = []"
    by (simp_all add: stored_refs_def CameraCapture_init_def)
  then show ?thesis
    using events_grows [of CameraCapture_init evs] assms by (auto simp: grows_def)
qed

lemma grows_keeps:
  assumes "grows c c'" "r < length (heap c)" "r \<notin> stored_refs c"
  shows "heap c' ! r = heap c ! r \<and> r \<notin> stored_refs c'"
  using assms by (auto simp: grows_def nth_append)

subsection \<open>What read_frame returns\<close>

lemma read_copy:
  assumes "is_opened c" "grabbed c" "frame c = Some a"
  shows "cam_read_frame c = ((True, Some (length (heap c))), c\<lparr>heap := heap c @ [heap c ! a]\<rparr>)"
  using assms by (simp add: cam_read_frame_def)

lemma read_none:
  assumes "\<not> is_opened c \<or> \<not> grabbed c"
  shows "cam_read_frame c = ((False, None), c)"
  using assms by (auto simp: cam_read_frame_def)

text \<open>
  C8. \<open>read_frame\<close> of the camera returns \<open>(False, None)\<close> on a new object, on
  every object that is not opened, after any run of events in which the device never
  hands out a frame, and after \<open>stop\<close> whatever the threads still do (as long as
  \<open>start\<close> is not called again). In a state reached from a new object in which a frame
  is published, it returns True with a newly allocated array that holds the contents of
  the published one; nothing that happens later changes that array, and neither the
  object nor a thread ever holds a reference to it.
\<close>

theorem read_latest:
  "cam_read_frame CameraCapture_init = ((False, None), CameraCapture_init)
   \<and> (\<not> is_opened c0 \<longrightarrow> cam_read_frame c0 = ((False, None), c0))
   \<and> (list_all no_grab evs1
        \<longrightarrow> fst (cam_read_frame (cam_events CameraCapture_init evs1)) = (False, None))
   \<and> (list_all no_start evs2
        \<longrightarrow> fst (cam_read_frame (cam_events (stop during c2) evs2)) = (False, None))
   \<and> (c = cam_events CameraCapture_init evs \<and> is_opened c \<and> grabbed c \<and> frame c = Some a
        \<longrightarrow> a < length (heap c)
            \<and> cam_read_frame c
                = ((True, Some (length (heap c))), c\<lparr>heap := heap c @ [heap c ! a]\<rparr>)
            \<and> heap (cam_events (snd (cam_read_frame c)) evs') ! length (heap c) = heap c ! a
            \<and> length (heap c) \<notin> stored_refs (cam_events (snd (cam_read_frame c)) evs'))"
proof -
  have p1: "cam_read_frame CameraCapture_init = ((False, None), CameraCapture_init)"
    by (simp add: cam_read_frame_def CameraCapture_init_def)
  have p2: "\<not> is_opened c0 \<longrightarrow> cam_read_frame c0 = ((False, None), c0)"
    by (simp add: read_none)
  have p3: "fst (cam_read_frame (cam_events CameraCapture_init evs1)) = (False, None)"
    if "list_all no_grab evs1"
  proof -
    have "idle CameraCapture_init" by (simp add: idle_def CameraCapture_init_def)
    then have "idle (cam_events CameraCapture_init evs1)" using that by (rule events_idle)
    then show ?thesis by (simp add: read_none idle_def)
  qed
  have p4: "fst (cam_read_frame (cam_events (stop during c2) evs2)) = (False, None)"
    if "list_all no_start evs2"
    using events_closed [OF stop_closed that] by (simp add: read_none)
  have p5: "a < length (heap c)
            \<and> cam_read_frame c
                = ((True, Some (length (heap c))), c\<lparr>heap := heap c @ [heap c ! a]\<rparr>)
            \<and> heap (cam_events (snd (cam_read_frame c)) evs') ! length (heap c) = heap c ! a
            \<and> length (heap c) \<notin> stored_refs (cam_events (snd (cam_read_frame c)) evs')"
    if r: "c = cam_events CameraCapture_init evs" and o: "is_opened c" "grabbed c" "frame c = Some a"
  proof -
    let ?c' = "c\<lparr>heap := heap c @ [heap c ! a]\<rparr>"
    have below: "\<And>x. x \<in> stored_refs c \<Longrightarrow> x < length (heap c)"
      unfolding r by (rule reachable_refs)
    have "a \<in> stored_refs c" using o(3) by (simp add: stored_refs_def)
    then have a: "a < length (heap c)" by (rule below)
    have rd: "cam_read_frame c = ((True, Some (length (heap c))), ?c')"
      by (rule read_copy [OF o])
    have fresh: "length (heap c) \<notin> stored_refs ?c'"
      using below by (auto simp: stored_refs_def)
    have "length (heap c) < length (heap ?c')" by simp
    then have "heap (cam_events ?c' evs') ! length (heap c) = heap ?c' ! length (heap c)
               \<and> length (heap c) \<notin> stored_refs (cam_events ?c' evs')"
      using grows_keeps [OF events_grows [of ?c' evs'] _ fresh] by blast
    then show ?thesis using a rd by simp
  qed
  show ?thesis using p1 p2 p3 p4 p5 by blast
qed

lemma cam_grabbed_eq:
  "cam_grabbed = \<lparr>capture = Some True, is_opened = True, grabbed = True, frame = Some 0,
      thread = Some 0, stop_thread = False, heap = [pixel_frame],
      workers = [\<lparr>wpc = LoopTest, w_grabbed = False, w_frame = None\<rparr>]\<rparr>"
  by (simp add: cam_grabbed_def cam_events_def start_def device_read_def CameraCapture_init_def)

theorem read_latest_witness:
  "list_all no_grab [Start True None, ReadLatest, Stop []]
   \<and> fst (cam_read_frame (cam_events CameraCapture_init [Start True None, ReadLatest, Stop []]))
       = (False, None)
   \<and> list_all no_start [Worker 0 (Some pixel_frame), ReadLatest]
   \<and> fst (cam_read_frame (cam_events (stop [] cam_grabbed) [Worker 0 (Some pixel_frame), ReadLatest]))
       = (False, None)
   \<and> is_opened cam_grabbed \<and> grabbed cam_grabbed \<and> frame cam_grabbed = Some 0
   \<and> fst (cam_read_frame cam_grabbed) = (True, Some 1)
   \<and> heap (cam_events (snd (cam_read_frame cam_grabbed))
             [Worker 0 None, Worker 0 None, Worker 0 (Some pixel_frame), Worker 0 None, Worker 0 None])
        ! 1 = pixel_frame"
proof -
  have g1: "list_all no_grab [Start True None, ReadLatest, Stop []]" by simp
  have g2: "list_all no_start [Worker 0 (Some pixel_frame), ReadLatest]" by simp
  have g3: "is_opened cam_grabbed \<and> grabbed cam_grabbed \<and> frame cam_grabbed = Some 0"
    by (simp add: cam_grabbed_eq)
  have h: "heap cam_grabbed = [pixel_frame]" by (simp add: cam_grabbed_eq)
  note th = read_latest [of _ "[Start True None, ReadLatest, Stop []]"
      "[Worker 0 (Some pixel_frame), ReadLatest]" "[]" cam_grabbed cam_grabbed
      "[Start True (Some pixel_frame)]" 0
      "[Worker 0 None, Worker 0 None, Worker 0 (Some pixel_frame), Worker 0 None, Worker 0 None]"]
  have t3: "fst (cam_read_frame (cam_events CameraCapture_init [Start True None, ReadLatest, Stop []]))
       = (False, None)"
    using th g1 by blast
  have t4: "fst (cam_read_frame (cam_events (stop [] cam_grabbed) [Worker 0 (Some pixel_frame), ReadLatest]))
       = (False, None)"
    using th g2 by blast
  have t5: "cam_read_frame cam_grabbed
              = ((True, Some (length (heap cam_grabbed))),
                 cam_grabbed\<lparr>heap := heap cam_grabbed @ [heap cam_grabbed ! 0]\<rparr>)
            \<and> heap (cam_events (snd (cam_read_frame cam_grabbed))
                 [Worker 0 None, Worker 0 None, Worker 0 (Some pixel_frame), Worker 0 None,
                  Worker 0 None]) ! length (heap cam_grabbed) = heap cam_grabbed ! 0"
    using th g3 cam_grabbed_def by blast
  have t6: "fst (cam_read_frame cam_grabbed) = (True, Some 1)"
    using t5 h by simp
  have t7: "heap (cam_events (snd (cam_read_frame cam_grabbed))
             [Worker 0 None, Worker 0 None, Worker 0 (Some pixel_frame), Worker 0 None, Worker 0 None])
        ! 1 = pixel_frame"
    using conjunct2 [OF t5] h by simp
  show ?thesis using g1 g2 g3 t3 t4 t6 t7 by blast
qed

end
